theory Spec2Isabelle
  imports Main "HOL-Library.Multiset"
begin

section \<open>Python values and built-ins used by market.py\<close>

text \<open>
  The inventory rows are dictionaries read with \<open>.get\<close>, and the script passes what it
  reads to \<open>str\<close> and \<open>int\<close>. A value is a string, an integer, or \<open>None\<close>
  (what \<open>.get\<close> gives for a missing key). A Python string is modelled as an Isabelle
  string, that is, as code points below 256. Floats and other objects are outside the model.
\<close>

datatype pyval = PyStr string | PyInt int | PyNone

datatype error =
    ReadTimeout | ConnectionError | HTTPError
  | ValueError | TypeError | OtherError

text \<open>\<open>str(n)\<close> for a Python integer: decimal digits, a minus sign when negative.\<close>

definition digit_char :: "nat \<Rightarrow> char" where
  "digit_char d = char_of (48 + d)"

fun nat_digits :: "nat \<Rightarrow> string" where
  "nat_digits n = (if n < 10 then [digit_char n] else nat_digits (n div 10) @ [digit_char (n mod 10)])"

declare nat_digits.simps [simp del]

definition int_digits :: "int \<Rightarrow> string" where
  "int_digits i = (if i < 0 then CHR ''-'' # nat_digits (nat (- i)) else nat_digits (nat i))"

fun py_str :: "pyval \<Rightarrow> string" where
  "py_str (PyStr s) = s"
| "py_str (PyInt i) = int_digits i"
| "py_str PyNone = ''None''"

text \<open>
  \<open>int(s)\<close> for a string, base 10, as CPython's \<open>PyLong_FromString\<close> reads it:
  leading whitespace, an optional sign, digits with single underscores between them,
  trailing whitespace, and nothing else. Whitespace is tab, LF, VT, FF, CR, space, and the
  two code points 0x85 and 0xA0 (the Unicode whitespace below 256 that \<open>int\<close> turns
  into spaces; 0x1C to 0x1F are not accepted). The limit on the number of digits
  (\<open>sys.set_int_max_str_digits\<close>) is not modelled.
\<close>

definition py_isspace :: "char \<Rightarrow> bool" where
  "py_isspace c = (of_char c \<in> {9, 10, 11, 12, 13, 32, 133, 160 :: nat})"

definition py_isdigit :: "char \<Rightarrow> bool" where
  "py_isdigit c = (48 \<le> (of_char c :: nat) \<and> (of_char c :: nat) \<le> 57)"

definition digit_val :: "char \<Rightarrow> int" where
  "digit_val c = int (of_char c) - 48"

text \<open>
  The digit scan after a first digit: \<open>acc\<close> is the value read so far. An underscore
  must be followed by a digit; anything else ends the scan and is handed back.
\<close>

fun scan_digits :: "int \<Rightarrow> string \<Rightarrow> (int \<times> string) option" where
  "scan_digits acc [] = Some (acc, [])"
| "scan_digits acc (c # cs) =
     (if py_isdigit c then scan_digits (acc * 10 + digit_val c) cs
      else if c = CHR ''_'' then
        (case cs of
           [] \<Rightarrow> None
         | d # ds \<Rightarrow> if py_isdigit d then scan_digits (acc * 10 + digit_val d) ds else None)
      else Some (acc, c # cs))"

definition scan_number :: "string \<Rightarrow> (int \<times> string) option" where
  "scan_number s =
     (case s of
        [] \<Rightarrow> None
      | c # cs \<Rightarrow> if py_isdigit c then scan_digits (digit_val c) cs else None)"

definition py_int_str :: "string \<Rightarrow> error + int" where
  "py_int_str s =
     (let s1 = dropWhile py_isspace s;
          neg = (s1 \<noteq> [] \<and> hd s1 = CHR ''-'');
          s2 = (if s1 \<noteq> [] \<and> (hd s1 = CHR ''+'' \<or> hd s1 = CHR ''-'') then tl s1 else s1)
      in case scan_number s2 of
           None \<Rightarrow> Inl ValueError
         | Some (n, rest) \<Rightarrow>
             if dropWhile py_isspace rest = [] then Inr (if neg then - n else n)
             else Inl ValueError)"

fun py_int :: "pyval \<Rightarrow> error + int" where
  "py_int (PyStr s) = py_int_str s"
| "py_int (PyInt i) = Inr i"
| "py_int PyNone = Inl TypeError"

section \<open>Data model\<close>

text \<open>
  One inventory row: the dictionary keys the script reads are "Kod" (code), "Kolichestvo"
  (quantity) and "Tsena" (price), written in Cyrillic in the source.
\<close>

record watch =
  Kod :: pyval
  Kolichestvo :: pyval
  Tsena :: pyval

record stock_item =
  item_count :: int
  item_type :: string
  updatedAt :: string

record stock =
  sku :: string
  warehouseId :: string
  items :: "stock_item list"

record price_body =
  price_value :: int
  currencyId :: string

record price_entry =
  price_id :: string
  price :: price_body

text \<open>\<open>str(watch.get("Kod"))\<close>: the only way the script reads a row's code.\<close>

abbreviation kod :: "watch \<Rightarrow> string" where
  "kod w \<equiv> py_str (Kod w)"

section \<open>create_stocks\<close>

text \<open>
  The quantity branch of \<open>create_stocks\<close> (lines 197 to 203): the string form of the
  quantity is compared with the two tokens, and otherwise \<open>int\<close> is applied to the raw
  value.
\<close>

definition stock_of_count :: "pyval \<Rightarrow> error + int" where
  "stock_of_count q =
     (let count = py_str q
      in if count = ''>10'' then Inr 100
         else if count = ''1'' then Inr 0
         else py_int q)"

definition mk_stock :: "string \<Rightarrow> string \<Rightarrow> string \<Rightarrow> int \<Rightarrow> stock" where
  "mk_stock warehouse_id date s n =
     \<lparr>sku = s, warehouseId = warehouse_id,
      items = [\<lparr>item_count = n, item_type = ''FIT'', updatedAt = date\<rparr>]\<rparr>"

text \<open>
  The first loop. \<open>offer_ids\<close> is the caller's list, changed in place by
  \<open>offer_ids.remove\<close>, which deletes the first occurrence: the loop returns it with
  the entries. A \<open>ValueError\<close> or \<open>TypeError\<close> from \<open>int\<close> leaves the function at once.
\<close>

fun stocks_loop ::
  "string \<Rightarrow> string \<Rightarrow> watch list \<Rightarrow> string list \<Rightarrow> stock list \<Rightarrow> error + (stock list \<times> string list)"
where
  "stocks_loop warehouse_id date [] offer_ids stocks = Inr (stocks, offer_ids)"
| "stocks_loop warehouse_id date (w # ws) offer_ids stocks =
     (if kod w \<in> set offer_ids then
        (case stock_of_count (Kolichestvo w) of
           Inl e \<Rightarrow> Inl e
         | Inr n \<Rightarrow>
             stocks_loop warehouse_id date ws (remove1 (kod w) offer_ids)
               (stocks @ [mk_stock warehouse_id date (kod w) n]))
      else stocks_loop warehouse_id date ws offer_ids stocks)"

text \<open>
  \<open>create_stocks\<close>: the first loop, then one entry with count 0 for every identifier
  left in the list. The result is the returned list and the caller's list as the call
  leaves it. \<open>date\<close> is the timestamp the function reads from the clock once.
\<close>

definition create_stocks ::
  "string \<Rightarrow> watch list \<Rightarrow> string list \<Rightarrow> string \<Rightarrow> error + (stock list \<times> string list)"
where
  "create_stocks date watch_remnants offer_ids warehouse_id =
     (case stocks_loop warehouse_id date watch_remnants offer_ids [] of
        Inl e \<Rightarrow> Inl e
      | Inr (stocks, rest) \<Rightarrow>
          Inr (stocks @ map (\<lambda>offer_id. mk_stock warehouse_id date offer_id 0) rest, rest))"

section \<open>create_prices\<close>

definition mk_price :: "string \<Rightarrow> int \<Rightarrow> price_entry" where
  "mk_price k v = \<lparr>price_id = k, price = \<lparr>price_value = v, currencyId = ''RUR''\<rparr>\<rparr>"

text \<open>
  \<open>price_conversion\<close> is imported from the module \<open>seller\<close>, which the repository
  does not hold: it is a parameter, a function that may raise and whose result (a string
  or an integer) goes through \<open>int\<close>. The list \<open>offer_ids\<close> is only read.
\<close>

fun prices_loop ::
  "(pyval \<Rightarrow> error + pyval) \<Rightarrow> watch list \<Rightarrow> string list \<Rightarrow> price_entry list
     \<Rightarrow> error + price_entry list"
where
  "prices_loop price_conversion [] offer_ids prices = Inr prices"
| "prices_loop price_conversion (w # ws) offer_ids prices =
     (if kod w \<in> set offer_ids then
        (case price_conversion (Tsena w) of
           Inl e \<Rightarrow> Inl e
         | Inr converted \<Rightarrow>
             (case py_int converted of
                Inl e \<Rightarrow> Inl e
              | Inr v \<Rightarrow>
                  prices_loop price_conversion ws offer_ids (prices @ [mk_price (kod w) v])))
      else prices_loop price_conversion ws offer_ids prices)"

definition create_prices ::
  "(pyval \<Rightarrow> error + pyval) \<Rightarrow> watch list \<Rightarrow> string list \<Rightarrow> error + price_entry list"
where
  "create_prices price_conversion watch_remnants offer_ids =
     prices_loop price_conversion watch_remnants offer_ids []"

section \<open>The marketplace, the clock and the seller module\<close>

text \<open>
  What \<open>get_product_list\<close> hands back for one page: the \<open>shopSku\<close> of each entry of
  \<open>offerMappingEntries\<close>, and \<open>paging.nextPageToken\<close> when the answer has one.
\<close>

record page =
  offerMappingEntries :: "string list"
  nextPageToken :: "string option"

text \<open>
  The three \<open>except\<close> clauses of \<open>main\<close> print a line each: the timeout message, the
  error with the connection message, the error with \<open>ERROR_2\<close>.
\<close>

datatype report = ReportTimeout | ReportConnection error | ReportError2 error

text \<open>
  Everything the script does to the outside world, in the order it happens. The three
  requests carry their arguments: the page token or the batch, the campaign, the token.
\<close>

datatype call =
    GetProductList string string string
  | UpdateStocks "stock list" string string
  | UpdatePrice "price_entry list" string string
  | Print report

text \<open>
  The outside world. An answer of the marketplace may depend on every call made before
  it, and may be an exception; the reading of the clock may depend on those calls too.
  \<open>price_conversion\<close> and \<open>divide\<close> come from the absent module \<open>seller\<close>;
  \<open>divide\<close> is used at two types, and \<open>list(divide(xs, n))\<close> is taken as the list
  of its chunks. The value the two update requests return is never read: it is \<open>()\<close>.
\<close>

record env =
  market_get :: "call list \<Rightarrow> string \<Rightarrow> string \<Rightarrow> string \<Rightarrow> error + page"
  market_put :: "call list \<Rightarrow> stock list \<Rightarrow> string \<Rightarrow> string \<Rightarrow> error + unit"
  market_post :: "call list \<Rightarrow> price_entry list \<Rightarrow> string \<Rightarrow> string \<Rightarrow> error + unit"
  utcnow :: "call list \<Rightarrow> string"
  seller_price_conversion :: "pyval \<Rightarrow> error + pyval"
  divide_stocks :: "stock list \<Rightarrow> nat \<Rightarrow> stock list list"
  divide_prices :: "price_entry list \<Rightarrow> nat \<Rightarrow> price_entry list list"

text \<open>The five settings \<open>main\<close> reads from the environment, under their names there.\<close>

record config =
  MARKET_TOKEN :: string
  FBS_ID :: string
  DBS_ID :: string
  WAREHOUSE_FBS_ID :: string
  WAREHOUSE_DBS_ID :: string

text \<open>
  A statement of the script takes the calls made so far and gives its value or its
  exception, with the calls made up to then; \<open>None\<close> stands for a run that never ends.
\<close>

type_synonym 'a io = "call list \<Rightarrow> ((error + 'a) \<times> call list) option"

definition io_return :: "'a \<Rightarrow> 'a io" where
  "io_return x tr = Some (Inr x, tr)"

definition io_bind :: "'a io \<Rightarrow> ('a \<Rightarrow> 'b io) \<Rightarrow> 'b io" where
  "io_bind m f tr =
     (case m tr of
        None \<Rightarrow> None
      | Some (Inl e, tr') \<Rightarrow> Some (Inl e, tr')
      | Some (Inr x, tr') \<Rightarrow> f x tr')"

definition get_product_list :: "env \<Rightarrow> string \<Rightarrow> string \<Rightarrow> string \<Rightarrow> page io" where
  "get_product_list env page campaign_id access_token tr =
     Some (market_get env tr page campaign_id access_token,
           tr @ [GetProductList page campaign_id access_token])"

definition update_stocks :: "env \<Rightarrow> stock list \<Rightarrow> string \<Rightarrow> string \<Rightarrow> unit io" where
  "update_stocks env stocks campaign_id access_token tr =
     Some (market_put env tr stocks campaign_id access_token,
           tr @ [UpdateStocks stocks campaign_id access_token])"

definition update_price :: "env \<Rightarrow> price_entry list \<Rightarrow> string \<Rightarrow> string \<Rightarrow> unit io" where
  "update_price env prices campaign_id access_token tr =
     Some (market_post env tr prices campaign_id access_token,
           tr @ [UpdatePrice prices campaign_id access_token])"

text \<open>
  The \<open>while True\<close> loop of \<open>get_offer_ids\<close>: it asks for a page, keeps its entries, and
  stops when the next page token is absent or empty. Nothing bounds the number of pages.
\<close>

partial_function (option) offer_pages ::
  "env \<Rightarrow> string \<Rightarrow> string \<Rightarrow> string \<Rightarrow> string list \<Rightarrow> call list
     \<Rightarrow> ((error + string list) \<times> call list) option"
where
  "offer_pages env page campaign_id market_token product_list tr =
     (case get_product_list env page campaign_id market_token tr of
        None \<Rightarrow> None
      | Some (Inl e, tr') \<Rightarrow> Some (Inl e, tr')
      | Some (Inr some_prod, tr') \<Rightarrow>
          (case nextPageToken some_prod of
             None \<Rightarrow> Some (Inr (product_list @ offerMappingEntries some_prod), tr')
           | Some next_page \<Rightarrow>
               if next_page = [] then Some (Inr (product_list @ offerMappingEntries some_prod), tr')
               else offer_pages env next_page campaign_id market_token
                      (product_list @ offerMappingEntries some_prod) tr'))"

declare offer_pages.simps [code]

definition get_offer_ids :: "env \<Rightarrow> string \<Rightarrow> string \<Rightarrow> string list io" where
  "get_offer_ids env campaign_id market_token =
     offer_pages env [] campaign_id market_token []"

text \<open>\<open>create_stocks\<close> as a statement: it reads the clock and calls nothing.\<close>

definition clock_create_stocks ::
  "env \<Rightarrow> watch list \<Rightarrow> string list \<Rightarrow> string \<Rightarrow> (stock list \<times> string list) io" where
  "clock_create_stocks env watch_remnants offer_ids warehouse_id tr =
     Some (create_stocks (utcnow env tr) watch_remnants offer_ids warehouse_id, tr)"

definition pure_create_prices :: "env \<Rightarrow> watch list \<Rightarrow> string list \<Rightarrow> price_entry list io" where
  "pure_create_prices env watch_remnants offer_ids tr =
     Some (create_prices (seller_price_conversion env) watch_remnants offer_ids, tr)"

text \<open>
  The two \<open>for\<close> loops over the batches: one request per batch, in order; the first
  request that raises ends the loop.
\<close>

fun update_stocks_each :: "env \<Rightarrow> stock list list \<Rightarrow> string \<Rightarrow> string \<Rightarrow> unit io" where
  "update_stocks_each env [] campaign_id market_token = io_return ()"
| "update_stocks_each env (some_stock # later) campaign_id market_token =
     io_bind (update_stocks env some_stock campaign_id market_token)
       (\<lambda>_. update_stocks_each env later campaign_id market_token)"

fun update_price_each :: "env \<Rightarrow> price_entry list list \<Rightarrow> string \<Rightarrow> string \<Rightarrow> unit io" where
  "update_price_each env [] campaign_id market_token = io_return ()"
| "update_price_each env (some_prices # later) campaign_id market_token =
     io_bind (update_price env some_prices campaign_id market_token)
       (\<lambda>_. update_price_each env later campaign_id market_token)"

text \<open>
  \<open>upload_prices\<close> and \<open>upload_stocks\<close> are \<open>async def\<close>: calling one makes a
  coroutine object and runs nothing; its body runs when the object is awaited.
\<close>

datatype 'a coroutine = Coroutine "'a io"

fun await :: "'a coroutine \<Rightarrow> 'a io" where
  "await (Coroutine body) = body"

definition upload_prices ::
  "env \<Rightarrow> watch list \<Rightarrow> string \<Rightarrow> string \<Rightarrow> price_entry list coroutine" where
  "upload_prices env watch_remnants campaign_id market_token =
     Coroutine
       (io_bind (get_offer_ids env campaign_id market_token) (\<lambda>offer_ids.
        io_bind (pure_create_prices env watch_remnants offer_ids) (\<lambda>prices.
        io_bind (update_price_each env (divide_prices env prices 500) campaign_id market_token) (\<lambda>_.
        io_return prices))))"

text \<open>
  The filter at the end of \<open>upload_stocks\<close> reads \<open>items[0]\<close>; every entry
  \<open>create_stocks\<close> makes has exactly one item.
\<close>

definition upload_stocks ::
  "env \<Rightarrow> watch list \<Rightarrow> string \<Rightarrow> string \<Rightarrow> string \<Rightarrow> (stock list \<times> stock list) coroutine" where
  "upload_stocks env watch_remnants campaign_id market_token warehouse_id =
     Coroutine
       (io_bind (get_offer_ids env campaign_id market_token) (\<lambda>offer_ids.
        io_bind (clock_create_stocks env watch_remnants offer_ids warehouse_id) (\<lambda>(stocks, offer_ids).
        io_bind (update_stocks_each env (divide_stocks env stocks 2000) campaign_id market_token) (\<lambda>_.
        io_return
          (filter (\<lambda>stock. case items stock of [] \<Rightarrow> False | item # _ \<Rightarrow> item_count item \<noteq> 0) stocks,
           stocks)))))"

text \<open>
  The \<open>try\<close> block of \<open>main\<close>, given the settings and the inventory that the lines
  before it have read. Each call of \<open>upload_prices\<close> is a statement of its own: the
  coroutine object is made and dropped.
\<close>

definition main_try :: "env \<Rightarrow> config \<Rightarrow> watch list \<Rightarrow> unit io" where
  "main_try env cfg watch_remnants =
     io_bind (get_offer_ids env (FBS_ID cfg) (MARKET_TOKEN cfg)) (\<lambda>offer_ids.
     io_bind (clock_create_stocks env watch_remnants offer_ids (WAREHOUSE_FBS_ID cfg)) (\<lambda>(stocks, offer_ids).
     io_bind (update_stocks_each env (divide_stocks env stocks 2000)
                (FBS_ID cfg) (MARKET_TOKEN cfg)) (\<lambda>_.
     let fbs_prices = upload_prices env watch_remnants (FBS_ID cfg) (MARKET_TOKEN cfg) in
     io_bind (get_offer_ids env (DBS_ID cfg) (MARKET_TOKEN cfg)) (\<lambda>offer_ids.
     io_bind (clock_create_stocks env watch_remnants offer_ids (WAREHOUSE_DBS_ID cfg)) (\<lambda>(stocks, offer_ids).
     io_bind (update_stocks_each env (divide_stocks env stocks 2000)
                (DBS_ID cfg) (MARKET_TOKEN cfg)) (\<lambda>_.
     let dbs_prices = upload_prices env watch_remnants (DBS_ID cfg) (MARKET_TOKEN cfg) in
     io_return ()))))))"

fun handler :: "error \<Rightarrow> report" where
  "handler ReadTimeout = ReportTimeout"
| "handler ConnectionError = ReportConnection ConnectionError"
| "handler e = ReportError2 e"

text \<open>\<open>main\<close>: the \<open>try\<close> block under its three \<open>except\<close> clauses.\<close>

definition main :: "env \<Rightarrow> config \<Rightarrow> watch list \<Rightarrow> unit io" where
  "main env cfg watch_remnants tr =
     (case main_try env cfg watch_remnants tr of
        None \<Rightarrow> None
      | Some (Inl e, tr') \<Rightarrow> Some (Inr (), tr' @ [Print (handler e)])
      | Some (Inr u, tr') \<Rightarrow> Some (Inr (), tr'))"

section \<open>Notions used to state the properties\<close>

text \<open>The first error of a list of results, or all their values.\<close>

fun collect :: "('e + 'a) list \<Rightarrow> 'e + 'a list" where
  "collect [] = Inr []"
| "collect (Inl e # rs) = Inl e"
| "collect (Inr x # rs) = (case collect rs of Inl e \<Rightarrow> Inl e | Inr xs \<Rightarrow> Inr (x # xs))"

text \<open>
  The rows that find their code in the working list when the first loop reaches them, and
  the list the loop leaves.
\<close>

fun matched_records :: "watch list \<Rightarrow> string list \<Rightarrow> watch list" where
  "matched_records [] offer_ids = []"
| "matched_records (w # ws) offer_ids =
     (if kod w \<in> set offer_ids then w # matched_records ws (remove1 (kod w) offer_ids)
      else matched_records ws offer_ids)"

fun unmatched_ids :: "watch list \<Rightarrow> string list \<Rightarrow> string list" where
  "unmatched_ids [] offer_ids = offer_ids"
| "unmatched_ids (w # ws) offer_ids = unmatched_ids ws (remove1 (kod w) offer_ids)"

text \<open>The entry of one matched row, or the error its quantity raises.\<close>

definition stock_entry :: "string \<Rightarrow> string \<Rightarrow> watch \<Rightarrow> error + stock" where
  "stock_entry warehouse_id date w =
     (case stock_of_count (Kolichestvo w) of
        Inl e \<Rightarrow> Inl e
      | Inr n \<Rightarrow> Inr (mk_stock warehouse_id date (kod w) n))"


text \<open>The price entry of one row, or the error its price raises.\<close>

definition price_of :: "(pyval \<Rightarrow> error + pyval) \<Rightarrow> watch \<Rightarrow> error + price_entry" where
  "price_of price_conversion w =
     (case price_conversion (Tsena w) of
        Inl e \<Rightarrow> Inl e
      | Inr converted \<Rightarrow>
          (case py_int converted of Inl e \<Rightarrow> Inl e | Inr v \<Rightarrow> Inr (mk_price (kod w) v)))"


text \<open>
  Modelled from the spec: \<open>divide\<close> of the absent module \<open>seller\<close>, the Batcher of
  section 4.4 for a positive chunk size: chunks of \<open>n\<close> items in order, the last one
  possibly shorter, none for an empty list. The script calls it with 500 and 2000 only;
  the chunk size 0, which the Batcher rejects, gives no chunk here and is never used.
\<close>

function divide :: "'a list \<Rightarrow> nat \<Rightarrow> 'a list list" where
  "divide lst n = (if n = 0 \<or> lst = [] then [] else take n lst # divide (drop n lst) n)"
  by pat_completeness auto
termination
  by (relation "measure (\<lambda>(lst, n). length lst)") auto

declare divide.simps [simp del]

text \<open>
  The Batcher contract of section 4.4: for a positive chunk size the chunks, put
  together in order, give the items back; every chunk has between one and \<open>n\<close> items,
  and every chunk but the last has \<open>n\<close>.
\<close>

definition batcher_contract :: "('a list \<Rightarrow> nat \<Rightarrow> 'a list list) \<Rightarrow> bool" where
  "batcher_contract dv \<longleftrightarrow>
     (\<forall>lst n. 0 < n \<longrightarrow>
        concat (dv lst n) = lst
      \<and> (\<forall>chunk \<in> set (dv lst n). 1 \<le> length chunk \<and> length chunk \<le> n)
      \<and> (\<forall>chunk \<in> set (butlast (dv lst n)). length chunk = n))"

text \<open>The batches sent by the stock and price requests of a run, in order.\<close>

fun stock_batches :: "call list \<Rightarrow> stock list list" where
  "stock_batches [] = []"
| "stock_batches (UpdateStocks stocks campaign_id access_token # tr) = stocks # stock_batches tr"
| "stock_batches (c # tr) = stock_batches tr"

fun price_batches :: "call list \<Rightarrow> price_entry list list" where
  "price_batches [] = []"
| "price_batches (UpdatePrice prices campaign_id access_token # tr) = prices # price_batches tr"
| "price_batches (c # tr) = price_batches tr"

text \<open>The campaign a request is made for.\<close>

fun campaign_of :: "call \<Rightarrow> string option" where
  "campaign_of (GetProductList page campaign_id access_token) = Some campaign_id"
| "campaign_of (UpdateStocks stocks campaign_id access_token) = Some campaign_id"
| "campaign_of (UpdatePrice prices campaign_id access_token) = Some campaign_id"
| "campaign_of (Print r) = None"

text \<open>
  The three statements \<open>main\<close> writes out for each campaign: fetch the offer ids,
  reconcile the stocks, send the batches.
\<close>

definition sync_stocks :: "env \<Rightarrow> watch list \<Rightarrow> string \<Rightarrow> string \<Rightarrow> string \<Rightarrow> unit io" where
  "sync_stocks env watch_remnants campaign_id warehouse_id market_token =
     io_bind (get_offer_ids env campaign_id market_token) (\<lambda>offer_ids.
     io_bind (clock_create_stocks env watch_remnants offer_ids warehouse_id) (\<lambda>(stocks, offer_ids).
     update_stocks_each env (divide_stocks env stocks 2000) campaign_id market_token))"

section \<open>Sample inputs\<close>

text \<open>
  The two rows of the scenario of section 8 of the specification, the prices written in
  digits only.
\<close>

definition watch_sku1 :: watch where
  "watch_sku1 = \<lparr>Kod = PyStr ''sku1'', Kolichestvo = PyStr ''>10'', Tsena = PyStr ''1500''\<rparr>"

definition watch_sku2 :: watch where
  "watch_sku2 = \<lparr>Kod = PyStr ''sku2'', Kolichestvo = PyStr ''1'', Tsena = PyStr ''2000''\<rparr>"

text \<open>A second row for \<open>sku1\<close>, with a quantity that \<open>int\<close> refuses.\<close>

definition watch_sku1_again :: watch where
  "watch_sku1_again = \<lparr>Kod = PyStr ''sku1'', Kolichestvo = PyStr ''abc'', Tsena = PyStr ''7''\<rparr>"

text \<open>
  A marketplace with the offers \<open>sku1\<close> and \<open>sku3\<close> on a single page, on which every
  request succeeds; one on which the listing of the campaign \<open>fbs\<close> times out; and one
  on which the listing of the campaign \<open>dbs\<close> cannot connect.
\<close>

definition env_ok :: env where
  "env_ok =
     \<lparr>market_get = (\<lambda>tr page campaign_id access_token.
        Inr \<lparr>offerMappingEntries = [''sku1'', ''sku3''], nextPageToken = None\<rparr>),
      market_put = (\<lambda>tr stocks campaign_id access_token. Inr ()),
      market_post = (\<lambda>tr prices campaign_id access_token. Inr ()),
      utcnow = (\<lambda>tr. ''2023-10-10T12:34:56Z''),
      seller_price_conversion = (\<lambda>v. Inr v),
      divide_stocks = divide,
      divide_prices = divide\<rparr>"

definition env_fbs_timeout :: env where
  "env_fbs_timeout =
     env_ok\<lparr>market_get := (\<lambda>tr page campaign_id access_token.
       if campaign_id = ''fbs'' then Inl ReadTimeout
       else Inr \<lparr>offerMappingEntries = [''sku1'', ''sku3''], nextPageToken = None\<rparr>)\<rparr>"

definition env_dbs_down :: env where
  "env_dbs_down =
     env_ok\<lparr>market_get := (\<lambda>tr page campaign_id access_token.
       if campaign_id = ''dbs'' then Inl ConnectionError
       else Inr \<lparr>offerMappingEntries = [''sku1'', ''sku3''], nextPageToken = None\<rparr>)\<rparr>"

definition cfg_sample :: config where
  "cfg_sample =
     \<lparr>MARKET_TOKEN = ''token'', FBS_ID = ''fbs'', DBS_ID = ''dbs'',
      WAREHOUSE_FBS_ID = ''wh_fbs'', WAREHOUSE_DBS_ID = ''wh_dbs''\<rparr>"

section \<open>Auxiliary facts\<close>

lemma collect_map_Inr: "collect (map Inr xs) = Inr xs"
  by (induction xs) simp_all

lemma collect_InrD: "collect rs = Inr xs \<Longrightarrow> rs = map Inr xs"
proof (induction rs arbitrary: xs)
  case Nil
  then show ?case by simp
next
  case (Cons r rs)
  show ?case
  proof (cases r)
    case (Inl e)
    then show ?thesis using Cons.prems by simp
  next
    case (Inr x)
    then obtain ys where ys: "collect rs = Inr ys" and xs: "xs = x # ys"
      using Cons.prems by (cases "collect rs") auto
    from Cons.IH [OF ys] Inr xs show ?thesis by simp
  qed
qed

lemma collect_Inr_iff: "collect rs = Inr xs \<longleftrightarrow> rs = map Inr xs"
  using collect_InrD collect_map_Inr by blast

lemma stocks_loop_collect:
  "stocks_loop wh d ws ids acc =
     (case collect (map (stock_entry wh d) (matched_records ws ids)) of
        Inl e \<Rightarrow> Inl e
      | Inr ms \<Rightarrow> Inr (acc @ ms, unmatched_ids ws ids))"
proof (induction ws arbitrary: ids acc)
  case Nil
  show ?case by simp
next
  case (Cons w ws)
  show ?case
  proof (cases "kod w \<in> set ids")
    case False
    then show ?thesis using Cons.IH [of ids acc] by (simp add: remove1_idem split: sum.splits)
  next
    case True
    then show ?thesis
      using Cons.IH [of "remove1 (kod w) ids"]
      by (cases "stock_of_count (Kolichestvo w)") (auto simp: stock_entry_def split: sum.splits)
  qed
qed

lemma mset_matched_unmatched:
  "mset (map kod (matched_records ws ids)) + mset (unmatched_ids ws ids) = mset ids"
proof (induction ws arbitrary: ids)
  case Nil
  show ?case by simp
next
  case (Cons w ws)
  show ?case
  proof (cases "kod w \<in> set ids")
    case False
    then show ?thesis using Cons.IH [of ids] by (simp add: remove1_idem)
  next
    case True
    then show ?thesis using Cons.IH [of "remove1 (kod w) ids"] by simp
  qed
qed

lemma stock_entry_sku: "stock_entry wh d w = Inr s \<Longrightarrow> sku s = kod w"
  by (auto simp: stock_entry_def mk_stock_def split: sum.splits)

lemma map_stock_entry_sku:
  "map (stock_entry wh d) rs = map Inr ms \<Longrightarrow> map sku ms = map kod rs"
proof (induction rs arbitrary: ms)
  case Nil
  then show ?case by simp
next
  case (Cons r rs)
  then show ?case by (cases ms) (auto dest: stock_entry_sku)
qed

lemma create_stocks_collect:
  "create_stocks d ws ids wh =
     (case collect (map (stock_entry wh d) (matched_records ws ids)) of
        Inl e \<Rightarrow> Inl e
      | Inr ms \<Rightarrow>
          Inr (ms @ map (\<lambda>offer_id. mk_stock wh d offer_id 0) (unmatched_ids ws ids),
               unmatched_ids ws ids))"
  by (simp add: create_stocks_def stocks_loop_collect split: sum.splits)

lemma create_stocks_InrD:
  assumes "create_stocks d ws ids wh = Inr (stocks, rest)"
  obtains ms where "map (stock_entry wh d) (matched_records ws ids) = map Inr ms"
    and "stocks = ms @ map (\<lambda>offer_id. mk_stock wh d offer_id 0) rest"
    and "rest = unmatched_ids ws ids"
proof (cases "collect (map (stock_entry wh d) (matched_records ws ids))")
  case (Inl e)
  then show ?thesis using assms by (simp add: create_stocks_collect)
next
  case (Inr ms)
  then have "map (stock_entry wh d) (matched_records ws ids) = map Inr ms"
    by (rule collect_InrD)
  moreover have "stocks = ms @ map (\<lambda>offer_id. mk_stock wh d offer_id 0) rest"
    and "rest = unmatched_ids ws ids"
    using assms Inr by (auto simp: create_stocks_collect)
  ultimately show ?thesis by (rule that)
qed

lemma sku_zero_entries: "map sku (map (\<lambda>offer_id. mk_stock wh d offer_id 0) rest) = rest"
  by (induction rest) (simp_all add: mk_stock_def)

lemma create_stocks_sku_mset:
  assumes "create_stocks d ws ids wh = Inr (stocks, rest)"
  shows "mset (map sku stocks) = mset ids"
proof -
  from assms obtain ms where
    ms: "map (stock_entry wh d) (matched_records ws ids) = map Inr ms"
    and st: "stocks = ms @ map (\<lambda>offer_id. mk_stock wh d offer_id 0) rest"
    and rest: "rest = unmatched_ids ws ids"
    by (rule create_stocks_InrD)
  have "map sku stocks = map kod (matched_records ws ids) @ rest"
    using st map_stock_entry_sku [OF ms] sku_zero_entries [of wh d rest] by simp
  then show ?thesis
    using mset_matched_unmatched [of ws ids] rest by simp
qed

lemma create_stocks_sku_distinct:
  assumes "distinct ids" and "create_stocks d ws ids wh = Inr (stocks, rest)"
  shows "distinct (map sku stocks)"
  using create_stocks_sku_mset [OF assms(2)] assms(1) by (metis mset_eq_imp_distinct_iff)

lemma unmatched_ids_distinct: "distinct ids \<Longrightarrow> distinct (unmatched_ids ws ids)"
  by (induction ws arbitrary: ids) simp_all

lemma unmatched_ids_filter:
  "distinct ids \<Longrightarrow> unmatched_ids ws ids = filter (\<lambda>i. i \<notin> kod ` set ws) ids"
proof (induction ws arbitrary: ids)
  case Nil
  show ?case by simp
next
  case (Cons w ws)
  have "unmatched_ids (w # ws) ids = filter (\<lambda>i. i \<notin> kod ` set ws) (remove1 (kod w) ids)"
    using Cons.IH [of "remove1 (kod w) ids"] Cons.prems by simp
  also have "remove1 (kod w) ids = filter (\<lambda>i. i \<noteq> kod w) ids"
    using Cons.prems
    by (simp add: distinct_remove1_removeAll removeAll_filter_not_eq) (rule filter_cong, auto)
  finally show ?case by (auto intro: filter_cong)
qed

lemma matched_records_skip:
  "k \<notin> set ids \<Longrightarrow> matched_records (filter (\<lambda>v. kod v \<noteq> k) ws) ids = matched_records ws ids"
proof (induction ws arbitrary: ids)
  case Nil
  show ?case by simp
next
  case (Cons w ws)
  have "k \<notin> set (remove1 (kod w) ids)"
    using Cons.prems set_remove1_subset [of "kod w" ids] by blast
  then show ?case using Cons.IH [of ids] Cons.IH [of "remove1 (kod w) ids"] Cons.prems
    by auto
qed

lemma unmatched_ids_skip:
  "k \<notin> set ids \<Longrightarrow> unmatched_ids (filter (\<lambda>v. kod v \<noteq> k) ws) ids = unmatched_ids ws ids"
proof (induction ws arbitrary: ids)
  case Nil
  show ?case by simp
next
  case (Cons w ws)
  have "k \<notin> set (remove1 (kod w) ids)"
    using Cons.prems set_remove1_subset [of "kod w" ids] by blast
  then show ?case using Cons.IH [of "remove1 (kod w) ids"] Cons.prems
    by (auto simp: remove1_idem)
qed



lemma matched_records_append:
  "matched_records (xs @ ys) ids =
     matched_records xs ids @ matched_records ys (unmatched_ids xs ids)"
  by (induction xs arbitrary: ids) (simp_all add: remove1_idem)

lemma unmatched_ids_append:
  "unmatched_ids (xs @ ys) ids = unmatched_ids ys (unmatched_ids xs ids)"
  by (induction xs arbitrary: ids) simp_all

lemma later_duplicates_skipped:
  assumes "distinct ids"
  shows "matched_records (pre @ w # filter (\<lambda>v. kod v \<noteq> kod w) post) ids
           = matched_records (pre @ w # post) ids"
    and "unmatched_ids (pre @ w # filter (\<lambda>v. kod v \<noteq> kod w) post) ids
           = unmatched_ids (pre @ w # post) ids"
proof -
  let ?ids = "unmatched_ids pre ids"
  have d: "distinct ?ids" using assms by (rule unmatched_ids_distinct)
  then have out: "kod w \<notin> set (remove1 (kod w) ?ids)" by simp
  have m: "matched_records (w # filter (\<lambda>v. kod v \<noteq> kod w) post) ?ids
             = matched_records (w # post) ?ids"
    using out by (simp add: matched_records_skip)
  have u: "unmatched_ids (w # filter (\<lambda>v. kod v \<noteq> kod w) post) ?ids
             = unmatched_ids (w # post) ?ids"
    using out by (simp add: unmatched_ids_skip)
  show "matched_records (pre @ w # filter (\<lambda>v. kod v \<noteq> kod w) post) ids
           = matched_records (pre @ w # post) ids"
    using m by (simp only: matched_records_append)
  show "unmatched_ids (pre @ w # filter (\<lambda>v. kod v \<noteq> kod w) post) ids
           = unmatched_ids (pre @ w # post) ids"
    using u by (simp only: unmatched_ids_append)
qed

lemma filter_distinct_key:
  "distinct (map f xs) \<Longrightarrow> x \<in> set xs \<Longrightarrow> filter (\<lambda>y. f y = f x) xs = [x]"
proof (induction xs)
  case Nil
  then show ?case by simp
next
  case (Cons a xs)
  show ?case
  proof (cases "a = x")
    case True
    have "f x \<notin> f ` set xs" using Cons.prems(1) True by simp
    then have "filter (\<lambda>y. f y = f x) xs = []"
      by (auto simp: filter_empty_conv image_iff)
    then show ?thesis using True by simp
  next
    case False
    then have "x \<in> set xs" using Cons.prems(2) by simp
    moreover have "f a \<noteq> f x" using Cons.prems(1) \<open>x \<in> set xs\<close> by auto
    ultimately show ?thesis using Cons by simp
  qed
qed

lemma prices_loop_collect:
  "prices_loop pc ws ids acc =
     (case collect (map (price_of pc) (filter (\<lambda>w. kod w \<in> set ids) ws)) of
        Inl e \<Rightarrow> Inl e
      | Inr ps \<Rightarrow> Inr (acc @ ps))"
proof (induction ws arbitrary: acc)
  case Nil
  show ?case by simp
next
  case (Cons w ws)
  show ?case
  proof (cases "kod w \<in> set ids")
    case False
    then show ?thesis using Cons.IH [of acc] by simp
  next
    case True
    show ?thesis
    proof (cases "price_of pc w")
      case (Inl e)
      then show ?thesis using True by (auto simp: price_of_def split: sum.splits)
    next
      case (Inr p)
      then obtain c v where "pc (Tsena w) = Inr c" "py_int c = Inr v" "p = mk_price (kod w) v"
        by (auto simp: price_of_def split: sum.splits)
      then show ?thesis using True Inr Cons.IH [of "acc @ [p]"]
        by (simp split: sum.splits)
    qed
  qed
qed

lemma price_of_fields:
  "price_of pc w = Inr p \<Longrightarrow> price_id p = kod w \<and> currencyId (price p) = ''RUR''"
  by (auto simp: price_of_def mk_price_def split: sum.splits)






lemmas eval_defs =
  create_stocks_def stock_of_count_def mk_stock_def py_int_str_def scan_number_def
  py_isspace_def py_isdigit_def digit_val_def watch_sku1_def watch_sku2_def


section \<open>The stock reconciler\<close>

text \<open>
  Claim C1. For every inventory and every duplicate-free list of offer ids, the \<open>sku\<close>
  values of the list \<open>create_stocks\<close> returns are the supplied identifiers, each
  exactly once: the same multiset, no duplicate, and no other \<open>sku\<close>.
\<close>

theorem create_stocks_sku_multiset:
  assumes "distinct offer_ids"
    and "create_stocks date watch_remnants offer_ids warehouse_id = Inr (stocks, rest)"
  shows "mset (map sku stocks) = mset offer_ids \<and> distinct (map sku stocks)
    \<and> set (map sku stocks) = set offer_ids"
proof -
  from assms(2) obtain ms where
    ms: "map (stock_entry warehouse_id date) (matched_records watch_remnants offer_ids) = map Inr ms"
    and st: "stocks = ms @ map (\<lambda>offer_id. mk_stock warehouse_id date offer_id 0) rest"
    and rest: "rest = unmatched_ids watch_remnants offer_ids"
    by (rule create_stocks_InrD)
  have "map sku stocks = map kod (matched_records watch_remnants offer_ids) @ rest"
    using st map_stock_entry_sku [OF ms] sku_zero_entries [of warehouse_id date rest] by simp
  then have m: "mset (map sku stocks) = mset offer_ids"
    using mset_matched_unmatched [of watch_remnants offer_ids] rest by simp
  then have "distinct (map sku stocks)"
    using assms(1) by (metis mset_eq_imp_distinct_iff)
  moreover have "set (map sku stocks) = set offer_ids"
    using m by (rule mset_eq_setD)
  ultimately show ?thesis using m by simp
qed

theorem create_stocks_sku_multiset_witness:
  "distinct [''sku1'', ''sku3'']
   \<and> create_stocks ''D'' [watch_sku1, watch_sku2] [''sku1'', ''sku3''] ''W''
       = Inr ([mk_stock ''W'' ''D'' ''sku1'' 100, mk_stock ''W'' ''D'' ''sku3'' 0], [''sku3''])
   \<and> mset (map sku [mk_stock ''W'' ''D'' ''sku1'' 100, mk_stock ''W'' ''D'' ''sku3'' 0])
       = mset [''sku1'', ''sku3'']
   \<and> distinct (map sku [mk_stock ''W'' ''D'' ''sku1'' 100, mk_stock ''W'' ''D'' ''sku3'' 0])"
proof -
  have h1: "distinct [''sku1'', ''sku3'']" by simp
  have h2: "create_stocks ''D'' [watch_sku1, watch_sku2] [''sku1'', ''sku3''] ''W''
       = Inr ([mk_stock ''W'' ''D'' ''sku1'' 100, mk_stock ''W'' ''D'' ''sku3'' 0], [''sku3''])"
    by (simp add: eval_defs)
  from create_stocks_sku_multiset [OF h1 h2] h1 h2 show ?thesis by blast
qed








text \<open>
  Claim C6. For a duplicate-free list of offer ids and a row \<open>w\<close> that is the first of
  its code, the code being a known offer id: the call behaves exactly as if every later
  row of that code were absent (no entry for it, no error from its quantity), and when
  the call returns, the list has exactly one entry for the code, carrying the count of
  \<open>w\<close>.
\<close>

theorem create_stocks_duplicate_code:
  assumes "distinct offer_ids"
    and "kod w \<in> set offer_ids"
    and "kod w \<notin> kod ` set pre"
  shows "create_stocks date (pre @ w # post) offer_ids warehouse_id
           = create_stocks date (pre @ w # filter (\<lambda>v. kod v \<noteq> kod w) post) offer_ids warehouse_id
       \<and> (\<forall>stocks rest.
             create_stocks date (pre @ w # post) offer_ids warehouse_id = Inr (stocks, rest) \<longrightarrow>
             (\<exists>n. stock_of_count (Kolichestvo w) = Inr n
                \<and> filter (\<lambda>e. sku e = kod w) stocks = [mk_stock warehouse_id date (kod w) n]))"
proof (intro conjI allI impI)
  show "create_stocks date (pre @ w # post) offer_ids warehouse_id
           = create_stocks date (pre @ w # filter (\<lambda>v. kod v \<noteq> kod w) post) offer_ids warehouse_id"
    by (simp only: create_stocks_collect later_duplicates_skipped [OF assms(1)])
next
  fix stocks rest
  assume r: "create_stocks date (pre @ w # post) offer_ids warehouse_id = Inr (stocks, rest)"
  let ?ws = "pre @ w # post"
  from r obtain ms where
    ms: "map (stock_entry warehouse_id date) (matched_records ?ws offer_ids) = map Inr ms"
    and st: "stocks = ms @ map (\<lambda>offer_id. mk_stock warehouse_id date offer_id 0) rest"
    by (rule create_stocks_InrD)
  have "kod w \<in> set (unmatched_ids pre offer_ids)"
    using assms by (simp add: unmatched_ids_filter)
  then have "w \<in> set (matched_records ?ws offer_ids)"
    by (simp add: matched_records_append)
  then have "stock_entry warehouse_id date w \<in> set (map Inr ms)"
    using ms by (metis image_eqI set_map)
  then obtain s where s: "s \<in> set ms" and e: "stock_entry warehouse_id date w = Inr s"
    by auto
  from e obtain n where n: "stock_of_count (Kolichestvo w) = Inr n"
    and sn: "s = mk_stock warehouse_id date (kod w) n"
    by (auto simp: stock_entry_def split: sum.splits)
  have "distinct (map sku stocks)"
    using create_stocks_sku_distinct [OF assms(1) r] .
  moreover have "s \<in> set stocks" using s st by simp
  ultimately have "filter (\<lambda>e. sku e = sku s) stocks = [s]"
    by (rule filter_distinct_key)
  moreover have "sku s = kod w" using sn by (simp add: mk_stock_def)
  ultimately show "\<exists>n. stock_of_count (Kolichestvo w) = Inr n
      \<and> filter (\<lambda>e. sku e = kod w) stocks = [mk_stock warehouse_id date (kod w) n]"
    using n sn by simp
qed

theorem create_stocks_duplicate_code_witness:
  "distinct [''sku1'', ''sku3'']
   \<and> kod watch_sku1 \<in> set [''sku1'', ''sku3'']
   \<and> create_stocks ''D'' ([] @ watch_sku1 # [watch_sku1_again, watch_sku2]) [''sku1'', ''sku3''] ''W''
       = create_stocks ''D'' ([] @ watch_sku1 # [watch_sku2]) [''sku1'', ''sku3''] ''W''
   \<and> create_stocks ''D'' ([] @ watch_sku1 # [watch_sku1_again, watch_sku2]) [''sku1'', ''sku3''] ''W''
       = Inr ([mk_stock ''W'' ''D'' ''sku1'' 100, mk_stock ''W'' ''D'' ''sku3'' 0], [''sku3''])
   \<and> (\<exists>n. stock_of_count (Kolichestvo watch_sku1) = Inr n
        \<and> filter (\<lambda>e. sku e = kod watch_sku1)
             [mk_stock ''W'' ''D'' ''sku1'' 100, mk_stock ''W'' ''D'' ''sku3'' 0]
            = [mk_stock ''W'' ''D'' (kod watch_sku1) n])"
proof -
  have h1: "distinct [''sku1'', ''sku3'']" by simp
  have h2: "kod watch_sku1 \<in> set [''sku1'', ''sku3'']" by (simp add: watch_sku1_def)
  have h3: "kod watch_sku1 \<notin> kod ` set []" by simp
  have r: "create_stocks ''D'' ([] @ watch_sku1 # [watch_sku1_again, watch_sku2]) [''sku1'', ''sku3''] ''W''
       = Inr ([mk_stock ''W'' ''D'' ''sku1'' 100, mk_stock ''W'' ''D'' ''sku3'' 0], [''sku3''])"
    by (simp add: eval_defs watch_sku1_again_def)
  have f: "filter (\<lambda>v. kod v \<noteq> kod watch_sku1) [watch_sku1_again, watch_sku2] = [watch_sku2]"
    by (simp add: watch_sku1_def watch_sku2_def watch_sku1_again_def)
  note t = create_stocks_duplicate_code [OF h1 h2 h3, of "''D''" "[watch_sku1_again, watch_sku2]" "''W''"]
  from t have "create_stocks ''D'' ([] @ watch_sku1 # [watch_sku1_again, watch_sku2]) [''sku1'', ''sku3''] ''W''
       = create_stocks ''D'' ([] @ watch_sku1 # [watch_sku2]) [''sku1'', ''sku3''] ''W''"
    by (simp only: f)
  moreover from t r have "\<exists>n. stock_of_count (Kolichestvo watch_sku1) = Inr n
        \<and> filter (\<lambda>e. sku e = kod watch_sku1)
             [mk_stock ''W'' ''D'' ''sku1'' 100, mk_stock ''W'' ''D'' ''sku3'' 0]
            = [mk_stock ''W'' ''D'' (kod watch_sku1) n]"
    by blast
  ultimately show ?thesis using h1 h2 r by blast
qed

text \<open>
  Claim C10, as amended. For a duplicate-free list of offer ids, when \<open>create_stocks\<close>
  returns, the caller's list holds exactly the identifiers that are the code of no row, in
  their order; none of them is the code of a row; and they are the identifiers of the last
  entries of the returned list, the ones the second loop emits with count 0. (The claim as
  stated identifies them with the identifiers emitted with count 0, which fails: see the
  example after the theorem.)
\<close>

theorem create_stocks_consumes_offer_ids:
  assumes "distinct offer_ids"
    and "create_stocks date watch_remnants offer_ids warehouse_id = Inr (stocks, rest)"
  shows "rest = filter (\<lambda>i. i \<notin> kod ` set watch_remnants) offer_ids
       \<and> length rest \<le> length stocks
       \<and> drop (length stocks - length rest) stocks
           = map (\<lambda>offer_id. mk_stock warehouse_id date offer_id 0) rest"
proof -
  from assms(2) obtain ms where
    st: "stocks = ms @ map (\<lambda>offer_id. mk_stock warehouse_id date offer_id 0) rest"
    and rest: "rest = unmatched_ids watch_remnants offer_ids"
    by (rule create_stocks_InrD)
  have "rest = filter (\<lambda>i. i \<notin> kod ` set watch_remnants) offer_ids"
    using rest assms(1) by (simp add: unmatched_ids_filter)
  moreover have "length stocks - length rest = length ms" using st by simp
  ultimately show ?thesis using st by simp
qed

theorem create_stocks_consumes_offer_ids_witness:
  "distinct [''sku1'', ''sku3'']
   \<and> create_stocks ''D'' [watch_sku1, watch_sku2] [''sku1'', ''sku3''] ''W''
       = Inr ([mk_stock ''W'' ''D'' ''sku1'' 100, mk_stock ''W'' ''D'' ''sku3'' 0], [''sku3''])
   \<and> [''sku3''] = filter (\<lambda>i. i \<notin> kod ` set [watch_sku1, watch_sku2]) [''sku1'', ''sku3'']
   \<and> drop (length [mk_stock ''W'' ''D'' ''sku1'' 100, mk_stock ''W'' ''D'' ''sku3'' 0] - length [''sku3''])
        [mk_stock ''W'' ''D'' ''sku1'' 100, mk_stock ''W'' ''D'' ''sku3'' 0]
       = map (\<lambda>offer_id. mk_stock ''W'' ''D'' offer_id 0) [''sku3'']"
proof -
  have h1: "distinct [''sku1'', ''sku3'']" by simp
  have h2: "create_stocks ''D'' [watch_sku1, watch_sku2] [''sku1'', ''sku3''] ''W''
       = Inr ([mk_stock ''W'' ''D'' ''sku1'' 100, mk_stock ''W'' ''D'' ''sku3'' 0], [''sku3''])"
    by (simp add: eval_defs)
  from create_stocks_consumes_offer_ids [OF h1 h2] h1 h2 show ?thesis by blast
qed

text \<open>
  Claim C10 as stated fails: a matched row with quantity \<open>"1"\<close> is emitted with count 0,
  and its identifier is removed from the caller's list, which is left empty.
\<close>

theorem create_stocks_zero_count_removed:
  "create_stocks ''D'' [\<lparr>Kod = PyStr ''sku1'', Kolichestvo = PyStr ''1'', Tsena = PyStr ''2000''\<rparr>]
     [''sku1''] ''W''
   = Inr ([\<lparr>sku = ''sku1'', warehouseId = ''W'',
            items = [\<lparr>item_count = 0, item_type = ''FIT'', updatedAt = ''D''\<rparr>]\<rparr>], [])
   \<and> ''sku1'' \<notin> set ([] :: string list)"
  by (simp add: eval_defs)

section \<open>The price reconciler\<close>

text \<open>
  Claim C7. \<open>create_prices\<close> gives, for the rows whose code is a known offer id and in
  their order, one entry each (or the first error a price raises): whenever it returns, the
  \<open>id\<close> values of the entries are the codes of exactly those rows, every entry has the
  currency \<open>"RUR"\<close>, an integer value, and an \<open>id\<close> that is a known offer id.
\<close>

theorem create_prices_entries:
  "create_prices price_conversion watch_remnants offer_ids
     = collect (map (price_of price_conversion)
         (filter (\<lambda>w. kod w \<in> set offer_ids) watch_remnants))
   \<and> (\<forall>prices. create_prices price_conversion watch_remnants offer_ids = Inr prices \<longrightarrow>
         map price_id prices = map kod (filter (\<lambda>w. kod w \<in> set offer_ids) watch_remnants)
       \<and> (\<forall>p \<in> set prices. currencyId (price p) = ''RUR'' \<and> price_id p \<in> set offer_ids))"
proof (intro conjI allI impI)
  let ?m = "filter (\<lambda>w. kod w \<in> set offer_ids) watch_remnants"
  show c: "create_prices price_conversion watch_remnants offer_ids
     = collect (map (price_of price_conversion) ?m)"
    by (simp add: create_prices_def prices_loop_collect split: sum.splits)
  fix prices
  assume "create_prices price_conversion watch_remnants offer_ids = Inr prices"
  then have m: "map (price_of price_conversion) ?m = map Inr prices"
    using c by (simp add: collect_Inr_iff)
  then have len: "length prices = length ?m" by (metis length_map)
  have each: "price_of price_conversion (?m ! i) = Inr (prices ! i)" if "i < length ?m" for i
    using that m len by (metis nth_map)
  show ids: "map price_id prices = map kod ?m"
  proof (rule nth_equalityI)
    show "length (map price_id prices) = length (map kod ?m)" using len by simp
  next
    fix i assume "i < length (map price_id prices)"
    then have i: "i < length ?m" using len by simp
    then show "map price_id prices ! i = map kod ?m ! i"
      using price_of_fields [OF each [OF i]] len by simp
  qed
  show "\<forall>p \<in> set prices. currencyId (price p) = ''RUR'' \<and> price_id p \<in> set offer_ids"
  proof
    fix p assume "p \<in> set prices"
    then obtain i where i: "i < length prices" and p: "p = prices ! i"
      by (metis in_set_conv_nth)
    then have il: "i < length ?m" using len by simp
    have "price_id p = kod (?m ! i)" and cur: "currencyId (price p) = ''RUR''"
      using price_of_fields [OF each [OF il]] p by simp_all
    moreover have "?m ! i \<in> set ?m" using il by (rule nth_mem)
    ultimately have "price_id p \<in> set offer_ids" by simp
    then show "currencyId (price p) = ''RUR'' \<and> price_id p \<in> set offer_ids"
      using cur by simp
  qed
qed

theorem create_prices_entries_witness:
  "create_prices (\<lambda>v. Inr v) [watch_sku1, watch_sku2] [''sku1'', ''sku3'']
     = Inr [mk_price ''sku1'' 1500]
   \<and> map price_id [mk_price ''sku1'' 1500]
       = map kod (filter (\<lambda>w. kod w \<in> set [''sku1'', ''sku3'']) [watch_sku1, watch_sku2])
   \<and> currencyId (price (mk_price ''sku1'' 1500)) = ''RUR''
   \<and> price_id (mk_price ''sku1'' 1500) \<in> set [''sku1'', ''sku3'']"
proof -
  have r: "create_prices (\<lambda>v. Inr v) [watch_sku1, watch_sku2] [''sku1'', ''sku3'']
     = Inr [mk_price ''sku1'' 1500]"
    by (simp add: create_prices_def eval_defs)
  from create_prices_entries [of "\<lambda>v. Inr v" "[watch_sku1, watch_sku2]" "[''sku1'', ''sku3'']"] r
  have "map price_id [mk_price ''sku1'' 1500]
       = map kod (filter (\<lambda>w. kod w \<in> set [''sku1'', ''sku3'']) [watch_sku1, watch_sku2])
     \<and> (\<forall>p \<in> set [mk_price ''sku1'' 1500].
           currencyId (price p) = ''RUR'' \<and> price_id p \<in> set [''sku1'', ''sku3''])"
    by blast
  then show ?thesis using r by simp
qed

section \<open>Runs of the script: auxiliary facts\<close>

lemma io_bind_Inr_iff:
  "io_bind m f tr = Some (Inr y, tr'') \<longleftrightarrow>
     (\<exists>x tr'. m tr = Some (Inr x, tr') \<and> f x tr' = Some (Inr y, tr''))"
  by (auto simp: io_bind_def split: option.splits sum.splits prod.splits)

lemma io_bind_SomeD:
  assumes "io_bind m f tr = Some (r, tr'')"
  shows "(\<exists>e. r = Inl e \<and> m tr = Some (Inl e, tr''))
       \<or> (\<exists>x tr'. m tr = Some (Inr x, tr') \<and> f x tr' = Some (r, tr''))"
  using assms by (auto simp: io_bind_def split: option.splits sum.splits prod.splits)

lemma offer_pages_trace:
  assumes "offer_pages env page campaign_id market_token product_list tr = Some y"
  shows "\<exists>pages. snd y = tr @ map (\<lambda>p. GetProductList p campaign_id market_token) pages"
  using assms
proof (induct rule: offer_pages.raw_induct [rotated 1, consumes 1, case_names step])
  case (step rec env page campaign_id market_token product_list tr y)
  let ?g = "\<lambda>p. GetProductList p campaign_id market_token"
  let ?tr1 = "tr @ [?g page]"
  show ?case
  proof (cases "market_get env tr page campaign_id market_token")
    case (Inl e)
    then have "snd y = tr @ map ?g [page]"
      using step.hyps(2) by (auto simp: get_product_list_def)
    then show ?thesis by blast
  next
    case (Inr some_prod)
    show ?thesis
    proof (cases "\<exists>next_page. nextPageToken some_prod = Some next_page \<and> next_page \<noteq> []")
      case False
      then have "snd y = tr @ map ?g [page]"
        using step.hyps(2) Inr by (auto simp: get_product_list_def split: option.splits if_splits)
      then show ?thesis by blast
    next
      case True
      then obtain next_page where n: "nextPageToken some_prod = Some next_page" "next_page \<noteq> []"
        by blast
      then have "rec env next_page campaign_id market_token
                   (product_list @ offerMappingEntries some_prod) ?tr1 = Some y"
        using step.hyps(2) Inr by (simp add: get_product_list_def)
      from step.hyps(1) [OF this] obtain pages where "snd y = ?tr1 @ map ?g pages" by blast
      then have "snd y = tr @ map ?g (page # pages)" by simp
      then show ?thesis by blast
    qed
  qed
qed

lemma get_offer_ids_trace:
  assumes "get_offer_ids env campaign_id market_token tr = Some (r, tr')"
  shows "\<exists>pages. tr' = tr @ map (\<lambda>p. GetProductList p campaign_id market_token) pages"
  using offer_pages_trace [of env "[]" campaign_id market_token "[]" tr "(r, tr')"] assms
  by (simp add: get_offer_ids_def)

lemma update_stocks_each_trace:
  "update_stocks_each env bs c t tr = Some (r, tr') \<Longrightarrow>
   \<exists>n. n \<le> length bs \<and> tr' = tr @ map (\<lambda>b. UpdateStocks b c t) (take n bs)
      \<and> (\<forall>u. r = Inr u \<longrightarrow> n = length bs)"
proof (induction bs arbitrary: tr)
  case Nil
  then show ?case by (simp add: io_return_def)
next
  case (Cons b bs)
  let ?tr1 = "tr @ [UpdateStocks b c t]"
  from io_bind_SomeD [OF Cons.prems [simplified update_stocks_each.simps]]
  show ?case
  proof
    assume "\<exists>e. r = Inl e \<and> update_stocks env b c t tr = Some (Inl e, tr')"
    then obtain e where "r = Inl e" "tr' = ?tr1" by (auto simp: update_stocks_def)
    then have "Suc 0 \<le> length (b # bs) \<and> tr' = tr @ map (\<lambda>b. UpdateStocks b c t) (take (Suc 0) (b # bs))
      \<and> (\<forall>u. r = Inr u \<longrightarrow> Suc 0 = length (b # bs))" by simp
    then show ?thesis by blast
  next
    assume "\<exists>x tr1. update_stocks env b c t tr = Some (Inr x, tr1)
              \<and> update_stocks_each env bs c t tr1 = Some (r, tr')"
    then have "update_stocks_each env bs c t ?tr1 = Some (r, tr')"
      by (auto simp: update_stocks_def)
    from Cons.IH [OF this] obtain n where n: "n \<le> length bs"
      "tr' = ?tr1 @ map (\<lambda>b. UpdateStocks b c t) (take n bs)" "\<forall>u. r = Inr u \<longrightarrow> n = length bs"
      by blast
    then have "Suc n \<le> length (b # bs) \<and> tr' = tr @ map (\<lambda>b. UpdateStocks b c t) (take (Suc n) (b # bs))
      \<and> (\<forall>u. r = Inr u \<longrightarrow> Suc n = length (b # bs))" by simp
    then show ?thesis by blast
  qed
qed

lemma update_price_each_trace:
  "update_price_each env bs c t tr = Some (r, tr') \<Longrightarrow>
   \<exists>n. n \<le> length bs \<and> tr' = tr @ map (\<lambda>b. UpdatePrice b c t) (take n bs)
      \<and> (\<forall>u. r = Inr u \<longrightarrow> n = length bs)"
proof (induction bs arbitrary: tr)
  case Nil
  then show ?case by (simp add: io_return_def)
next
  case (Cons b bs)
  let ?tr1 = "tr @ [UpdatePrice b c t]"
  from io_bind_SomeD [OF Cons.prems [simplified update_price_each.simps]]
  show ?case
  proof
    assume "\<exists>e. r = Inl e \<and> update_price env b c t tr = Some (Inl e, tr')"
    then obtain e where "r = Inl e" "tr' = ?tr1" by (auto simp: update_price_def)
    then have "Suc 0 \<le> length (b # bs) \<and> tr' = tr @ map (\<lambda>b. UpdatePrice b c t) (take (Suc 0) (b # bs))
      \<and> (\<forall>u. r = Inr u \<longrightarrow> Suc 0 = length (b # bs))" by simp
    then show ?thesis by blast
  next
    assume "\<exists>x tr1. update_price env b c t tr = Some (Inr x, tr1)
              \<and> update_price_each env bs c t tr1 = Some (r, tr')"
    then have "update_price_each env bs c t ?tr1 = Some (r, tr')"
      by (auto simp: update_price_def)
    from Cons.IH [OF this] obtain n where n: "n \<le> length bs"
      "tr' = ?tr1 @ map (\<lambda>b. UpdatePrice b c t) (take n bs)" "\<forall>u. r = Inr u \<longrightarrow> n = length bs"
      by blast
    then have "Suc n \<le> length (b # bs) \<and> tr' = tr @ map (\<lambda>b. UpdatePrice b c t) (take (Suc n) (b # bs))
      \<and> (\<forall>u. r = Inr u \<longrightarrow> Suc n = length (b # bs))" by simp
    then show ?thesis by blast
  qed
qed

lemma stock_batches_append: "stock_batches (xs @ ys) = stock_batches xs @ stock_batches ys"
  by (induction xs rule: stock_batches.induct) simp_all

lemma price_batches_append: "price_batches (xs @ ys) = price_batches xs @ price_batches ys"
  by (induction xs rule: price_batches.induct) simp_all

lemma stock_batches_pages: "stock_batches (map (\<lambda>p. GetProductList p c t) pages) = []"
  by (induction pages) simp_all

lemma price_batches_pages: "price_batches (map (\<lambda>p. GetProductList p c t) pages) = []"
  by (induction pages) simp_all

lemma stock_batches_updates: "stock_batches (map (\<lambda>b. UpdateStocks b c t) bs) = bs"
  by (induction bs) simp_all

lemma price_batches_stock_updates: "price_batches (map (\<lambda>b. UpdateStocks b c t) bs) = []"
  by (induction bs) simp_all

lemma divide_concat: "0 < n \<Longrightarrow> concat (divide lst n) = lst"
proof (induction lst n rule: divide.induct)
  case (1 lst n)
  show ?case
  proof (cases "lst = []")
    case True
    then show ?thesis by (simp add: divide.simps)
  next
    case False
    then have "concat (divide lst n) = take n lst @ concat (divide (drop n lst) n)"
      using "1.prems" by (subst divide.simps) simp
    then show ?thesis using "1.IH" "1.prems" False by simp
  qed
qed

lemma divide_chunk_length:
  "0 < n \<Longrightarrow> chunk \<in> set (divide lst n) \<Longrightarrow> 1 \<le> length chunk \<and> length chunk \<le> n"
proof (induction lst n rule: divide.induct)
  case (1 lst n)
  show ?case
  proof (cases "lst = []")
    case True
    then show ?thesis using "1.prems" by (simp add: divide.simps)
  next
    case False
    then have "divide lst n = take n lst # divide (drop n lst) n"
      using "1.prems" by (subst divide.simps) simp
    then consider "chunk = take n lst" | "chunk \<in> set (divide (drop n lst) n)"
      using "1.prems" by auto
    then show ?thesis
    proof cases
      case 1
      then show ?thesis using False "1.prems"(1) by (cases lst) auto
    next
      case 2
      then show ?thesis using "1.IH" "1.prems"(1) False by simp
    qed
  qed
qed

lemma divide_full_chunks:
  "0 < n \<Longrightarrow> chunk \<in> set (butlast (divide lst n)) \<Longrightarrow> length chunk = n"
proof (induction lst n rule: divide.induct)
  case (1 lst n)
  show ?case
  proof (cases "lst = []")
    case True
    then show ?thesis using "1.prems" by (simp add: divide.simps)
  next
    case False
    then have d: "divide lst n = take n lst # divide (drop n lst) n"
      using "1.prems" by (subst divide.simps) simp
    show ?thesis
    proof (cases "divide (drop n lst) n = []")
      case True
      then show ?thesis using d "1.prems" by simp
    next
      case ne: False
      then have "drop n lst \<noteq> []" by (auto simp: divide.simps)
      then have full: "length (take n lst) = n" by simp
      from d ne "1.prems" consider "chunk = take n lst" | "chunk \<in> set (butlast (divide (drop n lst) n))"
        by auto
      then show ?thesis
      proof cases
        case 1
        then show ?thesis using full by simp
      next
        case 2
        then show ?thesis using "1.IH" "1.prems"(1) False by simp
      qed
    qed
  qed
qed

lemma divide_contract: "batcher_contract divide"
  unfolding batcher_contract_def
  using divide_concat divide_chunk_length divide_full_chunks by blast

lemma main_try_phases:
  "main_try env cfg ws =
     io_bind (sync_stocks env ws (FBS_ID cfg) (WAREHOUSE_FBS_ID cfg) (MARKET_TOKEN cfg))
       (\<lambda>_. sync_stocks env ws (DBS_ID cfg) (WAREHOUSE_DBS_ID cfg) (MARKET_TOKEN cfg))"
  by (rule ext)
    (simp add: main_try_def sync_stocks_def io_bind_def io_return_def
      split: option.splits sum.splits prod.splits)

lemma sync_stocks_SomeD:
  assumes "sync_stocks env ws c wh t tr = Some (r, tr')"
  shows "(\<exists>e. r = Inl e \<and> get_offer_ids env c t tr = Some (Inl e, tr'))
       \<or> (\<exists>ids e. r = Inl e \<and> get_offer_ids env c t tr = Some (Inr ids, tr')
             \<and> create_stocks (utcnow env tr') ws ids wh = Inl e)
       \<or> (\<exists>ids tr1 stocks rest.
             get_offer_ids env c t tr = Some (Inr ids, tr1)
           \<and> create_stocks (utcnow env tr1) ws ids wh = Inr (stocks, rest)
           \<and> update_stocks_each env (divide_stocks env stocks 2000) c t tr1 = Some (r, tr'))"
  using assms
  by (auto simp: sync_stocks_def io_bind_def clock_create_stocks_def
      split: option.splits sum.splits prod.splits)

lemma sync_stocks_InrD:
  assumes "sync_stocks env ws c wh t tr = Some (Inr u, tr')"
  shows "\<exists>ids tr1 stocks rest.
           get_offer_ids env c t tr = Some (Inr ids, tr1)
         \<and> create_stocks (utcnow env tr1) ws ids wh = Inr (stocks, rest)
         \<and> tr' = tr1 @ map (\<lambda>b. UpdateStocks b c t) (divide_stocks env stocks 2000)"
proof -
  from sync_stocks_SomeD [OF assms] obtain ids tr1 stocks rest where
    g: "get_offer_ids env c t tr = Some (Inr ids, tr1)"
    and s: "create_stocks (utcnow env tr1) ws ids wh = Inr (stocks, rest)"
    and u: "update_stocks_each env (divide_stocks env stocks 2000) c t tr1 = Some (Inr u, tr')"
    by auto
  from update_stocks_each_trace [OF u]
  have "tr' = tr1 @ map (\<lambda>b. UpdateStocks b c t) (divide_stocks env stocks 2000)" by auto
  with g s show ?thesis by blast
qed

lemma sync_stocks_calls:
  assumes "sync_stocks env ws c wh t tr = Some (r, tr')"
  shows "\<exists>new. tr' = tr @ new \<and> (\<forall>x \<in> set new. campaign_of x = Some c)
           \<and> price_batches new = []"
proof -
  have pages: "\<exists>new. tr1 = tr @ new \<and> (\<forall>x \<in> set new. campaign_of x = Some c)
           \<and> price_batches new = []"
    if "get_offer_ids env c t tr = Some (r1, tr1)" for r1 tr1
  proof -
    from get_offer_ids_trace [OF that] obtain pages where
      "tr1 = tr @ map (\<lambda>p. GetProductList p c t) pages" by blast
    moreover have "\<forall>x \<in> set (map (\<lambda>p. GetProductList p c t) pages). campaign_of x = Some c"
      by auto
    ultimately show ?thesis using price_batches_pages by blast
  qed
  from sync_stocks_SomeD [OF assms] consider
      e where "get_offer_ids env c t tr = Some (Inl e, tr')"
    | ids where "get_offer_ids env c t tr = Some (Inr ids, tr')"
    | ids tr1 stocks where "get_offer_ids env c t tr = Some (Inr ids, tr1)"
        "update_stocks_each env (divide_stocks env stocks 2000) c t tr1 = Some (r, tr')"
    by blast
  then show ?thesis
  proof cases
    case 1
    then show ?thesis by (rule pages)
  next
    case 2
    then show ?thesis by (rule pages)
  next
    case 3
    from pages [OF 3(1)] obtain new1 where n1: "tr1 = tr @ new1"
      "\<forall>x \<in> set new1. campaign_of x = Some c" "price_batches new1 = []" by blast
    from update_stocks_each_trace [OF 3(2)] obtain n where
      n: "tr' = tr1 @ map (\<lambda>b. UpdateStocks b c t) (take n (divide_stocks env stocks 2000))"
      by blast
    let ?new2 = "map (\<lambda>b. UpdateStocks b c t) (take n (divide_stocks env stocks 2000))"
    have "tr' = tr @ (new1 @ ?new2)" using n n1 by simp
    moreover have "\<forall>x \<in> set (new1 @ ?new2). campaign_of x = Some c" using n1 by auto
    moreover have "price_batches (new1 @ ?new2) = []"
      using n1 by (simp add: price_batches_append price_batches_stock_updates)
    ultimately show ?thesis by blast
  qed
qed

lemma price_batches_empty_iff:
  "price_batches tr = [] \<longleftrightarrow> (\<forall>prices c t. UpdatePrice prices c t \<notin> set tr)"
  by (induction tr rule: price_batches.induct) auto

lemma main_SomeD:
  assumes "main env cfg ws tr = Some (r, tr')"
  shows "r = Inr ()
       \<and> (main_try env cfg ws tr = Some (Inr (), tr')
          \<or> (\<exists>e tr1. main_try env cfg ws tr = Some (Inl e, tr1) \<and> tr' = tr1 @ [Print (handler e)]))"
  using assms by (auto simp: main_def split: option.splits sum.splits prod.splits)

lemma main_try_calls:
  assumes "main_try env cfg ws tr = Some (r, tr')"
  shows "\<exists>new. tr' = tr @ new \<and> price_batches new = []"
proof -
  from io_bind_SomeD [OF assms [unfolded main_try_phases]]
  show ?thesis
  proof
    assume "\<exists>e. r = Inl e \<and>
      sync_stocks env ws (FBS_ID cfg) (WAREHOUSE_FBS_ID cfg) (MARKET_TOKEN cfg) tr = Some (Inl e, tr')"
    then show ?thesis using sync_stocks_calls by blast
  next
    assume "\<exists>x tr1.
      sync_stocks env ws (FBS_ID cfg) (WAREHOUSE_FBS_ID cfg) (MARKET_TOKEN cfg) tr = Some (Inr x, tr1)
      \<and> sync_stocks env ws (DBS_ID cfg) (WAREHOUSE_DBS_ID cfg) (MARKET_TOKEN cfg) tr1 = Some (r, tr')"
    then obtain x tr1 where
      a: "sync_stocks env ws (FBS_ID cfg) (WAREHOUSE_FBS_ID cfg) (MARKET_TOKEN cfg) tr = Some (Inr x, tr1)"
      and b: "sync_stocks env ws (DBS_ID cfg) (WAREHOUSE_DBS_ID cfg) (MARKET_TOKEN cfg) tr1 = Some (r, tr')"
      by blast
    from sync_stocks_calls [OF a] obtain n1 where n1: "tr1 = tr @ n1" "price_batches n1 = []" by blast
    from sync_stocks_calls [OF b] obtain n2 where n2: "tr' = tr1 @ n2" "price_batches n2 = []" by blast
    have "tr' = tr @ (n1 @ n2)" using n1 n2 by simp
    moreover have "price_batches (n1 @ n2) = []" using n1 n2 by (simp add: price_batches_append)
    ultimately show ?thesis by blast
  qed
qed

lemmas run_defs =
  main_def main_try_def sync_stocks_def io_bind_def io_return_def get_offer_ids_def
  offer_pages.simps get_product_list_def update_stocks_def update_price_def
  clock_create_stocks_def pure_create_prices_def upload_prices_def upload_stocks_def
  env_ok_def env_fbs_timeout_def env_dbs_down_def cfg_sample_def divide.simps create_prices_def
  mk_price_def

lemma main_env_ok:
  "main env_ok cfg_sample [watch_sku1, watch_sku2] []
     = Some (Inr (),
         [GetProductList [] ''fbs'' ''token'',
          UpdateStocks [mk_stock ''wh_fbs'' ''2023-10-10T12:34:56Z'' ''sku1'' 100,
                        mk_stock ''wh_fbs'' ''2023-10-10T12:34:56Z'' ''sku3'' 0] ''fbs'' ''token'',
          GetProductList [] ''dbs'' ''token'',
          UpdateStocks [mk_stock ''wh_dbs'' ''2023-10-10T12:34:56Z'' ''sku1'' 100,
                        mk_stock ''wh_dbs'' ''2023-10-10T12:34:56Z'' ''sku3'' 0] ''dbs'' ''token''])"
  by (simp add: run_defs eval_defs)

lemma upload_prices_env_ok:
  "await (upload_prices env_ok [watch_sku1, watch_sku2] ''fbs'' ''token'') []
     = Some (Inr [mk_price ''sku1'' 1500],
         [GetProductList [] ''fbs'' ''token'',
          UpdatePrice [mk_price ''sku1'' 1500] ''fbs'' ''token''])"
  by (simp add: run_defs eval_defs)

lemma sync_fbs_timeout:
  "sync_stocks env_fbs_timeout [watch_sku1, watch_sku2]
     (FBS_ID cfg_sample) (WAREHOUSE_FBS_ID cfg_sample) (MARKET_TOKEN cfg_sample) []
   = Some (Inl ReadTimeout, [GetProductList [] ''fbs'' ''token''])"
  by (simp add: run_defs eval_defs)

lemma sync_fbs_dbs_down:
  "sync_stocks env_dbs_down [watch_sku1, watch_sku2]
     (FBS_ID cfg_sample) (WAREHOUSE_FBS_ID cfg_sample) (MARKET_TOKEN cfg_sample) []
   = Some (Inr (),
       [GetProductList [] ''fbs'' ''token'',
        UpdateStocks [mk_stock ''wh_fbs'' ''2023-10-10T12:34:56Z'' ''sku1'' 100,
                      mk_stock ''wh_fbs'' ''2023-10-10T12:34:56Z'' ''sku3'' 0] ''fbs'' ''token''])"
  by (simp add: run_defs eval_defs)

lemma sync_dbs_dbs_down:
  "sync_stocks env_dbs_down [watch_sku1, watch_sku2]
     (DBS_ID cfg_sample) (WAREHOUSE_DBS_ID cfg_sample) (MARKET_TOKEN cfg_sample)
       [GetProductList [] ''fbs'' ''token'',
        UpdateStocks [mk_stock ''wh_fbs'' ''2023-10-10T12:34:56Z'' ''sku1'' 100,
                      mk_stock ''wh_fbs'' ''2023-10-10T12:34:56Z'' ''sku3'' 0] ''fbs'' ''token'']
   = Some (Inl ConnectionError,
       [GetProductList [] ''fbs'' ''token'',
        UpdateStocks [mk_stock ''wh_fbs'' ''2023-10-10T12:34:56Z'' ''sku1'' 100,
                      mk_stock ''wh_fbs'' ''2023-10-10T12:34:56Z'' ''sku3'' 0] ''fbs'' ''token'',
        GetProductList [] ''dbs'' ''token''])"
  by (simp add: run_defs eval_defs)

lemma contract_bounds:
  assumes "batcher_contract dv" and "0 < n"
  shows "concat (dv lst n) = lst" and "\<forall>chunk \<in> set (dv lst n). 1 \<le> length chunk \<and> length chunk \<le> n"
  using assms by (auto simp: batcher_contract_def)

lemma upload_prices_InrD:
  assumes "await (upload_prices env ws c t) tr = Some (Inr prices, tr')"
  shows "\<exists>ids tr1.
           get_offer_ids env c t tr = Some (Inr ids, tr1)
         \<and> create_prices (seller_price_conversion env) ws ids = Inr prices
         \<and> tr' = tr1 @ map (\<lambda>b. UpdatePrice b c t) (divide_prices env prices 500)"
proof -
  from assms obtain ids tr1 u where
    g: "get_offer_ids env c t tr = Some (Inr ids, tr1)"
    and p: "create_prices (seller_price_conversion env) ws ids = Inr prices"
    and u: "update_price_each env (divide_prices env prices 500) c t tr1 = Some (Inr u, tr')"
    by (auto simp: upload_prices_def io_bind_def io_return_def pure_create_prices_def
        split: option.splits sum.splits prod.splits)
  from update_price_each_trace [OF u]
  have "tr' = tr1 @ map (\<lambda>b. UpdatePrice b c t) (divide_prices env prices 500)" by auto
  with g p show ?thesis by blast
qed

lemma upload_stocks_InrD:
  assumes "await (upload_stocks env ws c t wh) tr = Some (Inr (not_empty, stocks), tr')"
  shows "\<exists>ids tr1 rest.
           get_offer_ids env c t tr = Some (Inr ids, tr1)
         \<and> create_stocks (utcnow env tr1) ws ids wh = Inr (stocks, rest)
         \<and> tr' = tr1 @ map (\<lambda>b. UpdateStocks b c t) (divide_stocks env stocks 2000)"
proof -
  from assms obtain ids tr1 rest u where
    g: "get_offer_ids env c t tr = Some (Inr ids, tr1)"
    and p: "create_stocks (utcnow env tr1) ws ids wh = Inr (stocks, rest)"
    and u: "update_stocks_each env (divide_stocks env stocks 2000) c t tr1 = Some (Inr u, tr')"
    by (auto simp: upload_stocks_def io_bind_def io_return_def clock_create_stocks_def
        split: option.splits sum.splits prod.splits)
  from update_stocks_each_trace [OF u]
  have "tr' = tr1 @ map (\<lambda>b. UpdateStocks b c t) (divide_stocks env stocks 2000)" by auto
  with g p show ?thesis by blast
qed

lemma upload_stocks_env_ok:
  "await (upload_stocks env_ok [watch_sku1, watch_sku2] ''fbs'' ''token'' ''wh_fbs'') []
     = Some (Inr ([mk_stock ''wh_fbs'' ''2023-10-10T12:34:56Z'' ''sku1'' 100],
                  [mk_stock ''wh_fbs'' ''2023-10-10T12:34:56Z'' ''sku1'' 100,
                   mk_stock ''wh_fbs'' ''2023-10-10T12:34:56Z'' ''sku3'' 0]),
         [GetProductList [] ''fbs'' ''token'',
          UpdateStocks [mk_stock ''wh_fbs'' ''2023-10-10T12:34:56Z'' ''sku1'' 100,
                        mk_stock ''wh_fbs'' ''2023-10-10T12:34:56Z'' ''sku3'' 0] ''fbs'' ''token''])"
  by (simp add: run_defs eval_defs)

lemma main_try_env_ok:
  "main_try env_ok cfg_sample [watch_sku1, watch_sku2] []
     = Some (Inr (),
         [GetProductList [] ''fbs'' ''token'',
          UpdateStocks [mk_stock ''wh_fbs'' ''2023-10-10T12:34:56Z'' ''sku1'' 100,
                        mk_stock ''wh_fbs'' ''2023-10-10T12:34:56Z'' ''sku3'' 0] ''fbs'' ''token'',
          GetProductList [] ''dbs'' ''token'',
          UpdateStocks [mk_stock ''wh_dbs'' ''2023-10-10T12:34:56Z'' ''sku1'' 100,
                        mk_stock ''wh_dbs'' ''2023-10-10T12:34:56Z'' ''sku3'' 0] ''dbs'' ''token''])"
  by (simp add: run_defs eval_defs)

text \<open>
  The two loops over the batches always end, and so do the bodies of the two coroutines
  once the listing of the offer ids has ended.
\<close>

lemma update_stocks_each_returns: "\<exists>y. update_stocks_each env bs c t tr = Some y"
proof (induction bs arbitrary: tr)
  case Nil
  show ?case by (simp add: io_return_def)
next
  case (Cons b bs)
  from Cons [of "tr @ [UpdateStocks b c t]"] show ?case
    by (cases "market_put env tr b c t") (auto simp: io_bind_def update_stocks_def)
qed

lemma update_price_each_returns: "\<exists>y. update_price_each env bs c t tr = Some y"
proof (induction bs arbitrary: tr)
  case Nil
  show ?case by (simp add: io_return_def)
next
  case (Cons b bs)
  from Cons [of "tr @ [UpdatePrice b c t]"] show ?case
    by (cases "market_post env tr b c t") (auto simp: io_bind_def update_price_def)
qed

lemma upload_prices_returns:
  assumes "get_offer_ids env c t tr = Some y"
  shows "\<exists>z. await (upload_prices env ws c t) tr = Some z"
proof (cases y)
  case (Pair r tr1)
  show ?thesis
  proof (cases r)
    case (Inl e)
    then show ?thesis using assms Pair by (simp add: upload_prices_def io_bind_def)
  next
    case (Inr ids)
    show ?thesis
    proof (cases "create_prices (seller_price_conversion env) ws ids")
      case (Inl e)
      then show ?thesis using assms Pair Inr
        by (simp add: upload_prices_def io_bind_def pure_create_prices_def)
    next
      case inr: (Inr prices)
      from update_price_each_returns [of env "divide_prices env prices 500" c t tr1]
      obtain r2 tr2 where "update_price_each env (divide_prices env prices 500) c t tr1 = Some (r2, tr2)"
        by (metis surj_pair)
      then show ?thesis using assms Pair Inr inr
        by (cases r2) (simp_all add: upload_prices_def io_bind_def io_return_def pure_create_prices_def)
    qed
  qed
qed

lemma upload_stocks_returns:
  assumes "get_offer_ids env c t tr = Some y"
  shows "\<exists>z. await (upload_stocks env ws c t wh) tr = Some z"
proof (cases y)
  case (Pair r tr1)
  show ?thesis
  proof (cases r)
    case (Inl e)
    then show ?thesis using assms Pair by (simp add: upload_stocks_def io_bind_def)
  next
    case (Inr ids)
    show ?thesis
    proof (cases "create_stocks (utcnow env tr1) ws ids wh")
      case (Inl e)
      then show ?thesis using assms Pair Inr
        by (simp add: upload_stocks_def io_bind_def clock_create_stocks_def)
    next
      case inr: (Inr p)
      obtain stocks rest where p: "p = (stocks, rest)" by (cases p)
      from update_stocks_each_returns [of env "divide_stocks env stocks 2000" c t tr1]
      obtain r2 tr2 where "update_stocks_each env (divide_stocks env stocks 2000) c t tr1 = Some (r2, tr2)"
        by (metis surj_pair)
      then show ?thesis using assms Pair Inr inr p
        by (cases r2) (simp_all add: upload_stocks_def io_bind_def io_return_def clock_create_stocks_def)
    qed
  qed
qed

section \<open>The orchestrator\<close>

text \<open>
  Claim C3. The claim says that one run of \<open>main\<close> executes the price push of every
  campaign. The code does not: \<open>main\<close> calls the coroutine function \<open>upload_prices\<close>
  and drops the coroutine object, whose body never runs. For every marketplace, every
  configuration and every inventory, a run of \<open>main\<close> that ends has made no
  \<open>update_price\<close> request at all.
\<close>

theorem main_never_updates_prices:
  assumes "main env cfg watch_remnants tr = Some (r, tr')"
  shows "\<exists>new. tr' = tr @ new \<and> (\<forall>prices campaign_id access_token.
           UpdatePrice prices campaign_id access_token \<notin> set new)"
proof -
  from main_SomeD [OF assms] consider "main_try env cfg watch_remnants tr = Some (Inr (), tr')"
    | e tr1 where "main_try env cfg watch_remnants tr = Some (Inl e, tr1)" "tr' = tr1 @ [Print (handler e)]"
    by blast
  then show ?thesis
  proof cases
    case 1
    from main_try_calls [OF 1] show ?thesis by (auto simp: price_batches_empty_iff)
  next
    case 2
    from main_try_calls [OF 2(1)] obtain new where n: "tr1 = tr @ new" "price_batches new = []"
      by blast
    have "tr' = tr @ (new @ [Print (handler e)])" using n 2 by simp
    moreover have "price_batches (new @ [Print (handler e)]) = []"
      using n by (simp add: price_batches_append)
    ultimately show ?thesis unfolding price_batches_empty_iff by blast
  qed
qed

text \<open>
  On the sample marketplace the run makes the two stock requests and no price request,
  although the coroutine, had it been awaited, would have sent the price of \<open>sku1\<close>.
\<close>

theorem main_never_updates_prices_witness:
  "main env_ok cfg_sample [watch_sku1, watch_sku2] []
     = Some (Inr (),
         [GetProductList [] ''fbs'' ''token'',
          UpdateStocks [mk_stock ''wh_fbs'' ''2023-10-10T12:34:56Z'' ''sku1'' 100,
                        mk_stock ''wh_fbs'' ''2023-10-10T12:34:56Z'' ''sku3'' 0] ''fbs'' ''token'',
          GetProductList [] ''dbs'' ''token'',
          UpdateStocks [mk_stock ''wh_dbs'' ''2023-10-10T12:34:56Z'' ''sku1'' 100,
                        mk_stock ''wh_dbs'' ''2023-10-10T12:34:56Z'' ''sku3'' 0] ''dbs'' ''token''])
   \<and> UpdatePrice [mk_price ''sku1'' 1500] ''fbs'' ''token''
       \<notin> set [GetProductList [] ''fbs'' ''token'',
          UpdateStocks [mk_stock ''wh_fbs'' ''2023-10-10T12:34:56Z'' ''sku1'' 100,
                        mk_stock ''wh_fbs'' ''2023-10-10T12:34:56Z'' ''sku3'' 0] ''fbs'' ''token'',
          GetProductList [] ''dbs'' ''token'',
          UpdateStocks [mk_stock ''wh_dbs'' ''2023-10-10T12:34:56Z'' ''sku1'' 100,
                        mk_stock ''wh_dbs'' ''2023-10-10T12:34:56Z'' ''sku3'' 0] ''dbs'' ''token'']
   \<and> await (upload_prices env_ok [watch_sku1, watch_sku2] ''fbs'' ''token'') []
       = Some (Inr [mk_price ''sku1'' 1500],
           [GetProductList [] ''fbs'' ''token'',
            UpdatePrice [mk_price ''sku1'' 1500] ''fbs'' ''token''])"
proof -
  note h = main_env_ok
  from main_never_updates_prices [OF h] have
    "UpdatePrice [mk_price ''sku1'' 1500] ''fbs'' ''token''
       \<notin> set [GetProductList [] ''fbs'' ''token'',
          UpdateStocks [mk_stock ''wh_fbs'' ''2023-10-10T12:34:56Z'' ''sku1'' 100,
                        mk_stock ''wh_fbs'' ''2023-10-10T12:34:56Z'' ''sku3'' 0] ''fbs'' ''token'',
          GetProductList [] ''dbs'' ''token'',
          UpdateStocks [mk_stock ''wh_dbs'' ''2023-10-10T12:34:56Z'' ''sku1'' 100,
                        mk_stock ''wh_dbs'' ''2023-10-10T12:34:56Z'' ''sku3'' 0] ''dbs'' ''token'']"
    by (simp only: append_Nil) blast
  with h upload_prices_env_ok show ?thesis by blast
qed

text \<open>
  Claim C4, as amended. An exception raised in the \<open>try\<close> block of \<open>main\<close> is caught
  and printed, and \<open>main\<close> returns normally; nothing after the failing statement runs.
  When the failure happens while the first campaign (FBS) is synchronised, \<open>main\<close> ends
  with the report and every request of the run is one for FBS; when it happens while the
  second campaign (DBS) is synchronised, the requests already made for FBS stay made.
  (The claim as stated, that the remaining campaign still proceeds, fails: see the
  example after the witness.)
\<close>

theorem main_failure_ends_run:
  "(\<forall>r tr'. main env cfg watch_remnants tr = Some (r, tr') \<longrightarrow> r = Inr ())
   \<and> (\<forall>e tr1.
        sync_stocks env watch_remnants (FBS_ID cfg) (WAREHOUSE_FBS_ID cfg) (MARKET_TOKEN cfg) tr
          = Some (Inl e, tr1) \<longrightarrow>
        main env cfg watch_remnants tr = Some (Inr (), tr1 @ [Print (handler e)])
        \<and> (\<exists>new. tr1 = tr @ new \<and> (\<forall>x \<in> set new. campaign_of x = Some (FBS_ID cfg))))
   \<and> (\<forall>u e tr1 tr2.
        sync_stocks env watch_remnants (FBS_ID cfg) (WAREHOUSE_FBS_ID cfg) (MARKET_TOKEN cfg) tr
          = Some (Inr u, tr1)
        \<and> sync_stocks env watch_remnants (DBS_ID cfg) (WAREHOUSE_DBS_ID cfg) (MARKET_TOKEN cfg) tr1
          = Some (Inl e, tr2) \<longrightarrow>
        main env cfg watch_remnants tr = Some (Inr (), tr2 @ [Print (handler e)])
        \<and> (\<exists>new. tr2 = tr1 @ new \<and> (\<forall>x \<in> set new. campaign_of x = Some (DBS_ID cfg))))"
proof (intro conjI allI impI)
  fix r tr'
  assume "main env cfg watch_remnants tr = Some (r, tr')"
  then show "r = Inr ()" using main_SomeD by blast
next
  fix e tr1
  assume a: "sync_stocks env watch_remnants (FBS_ID cfg) (WAREHOUSE_FBS_ID cfg) (MARKET_TOKEN cfg) tr
          = Some (Inl e, tr1)"
  then have "main_try env cfg watch_remnants tr = Some (Inl e, tr1)"
    by (simp add: main_try_phases io_bind_def)
  then show "main env cfg watch_remnants tr = Some (Inr (), tr1 @ [Print (handler e)])"
    by (simp add: main_def)
  from sync_stocks_calls [OF a]
  show "\<exists>new. tr1 = tr @ new \<and> (\<forall>x \<in> set new. campaign_of x = Some (FBS_ID cfg))"
    by blast
next
  fix u e tr1 tr2
  assume ab: "sync_stocks env watch_remnants (FBS_ID cfg) (WAREHOUSE_FBS_ID cfg) (MARKET_TOKEN cfg) tr
          = Some (Inr u, tr1)
        \<and> sync_stocks env watch_remnants (DBS_ID cfg) (WAREHOUSE_DBS_ID cfg) (MARKET_TOKEN cfg) tr1
          = Some (Inl e, tr2)"
  then have "main_try env cfg watch_remnants tr = Some (Inl e, tr2)"
    by (simp add: main_try_phases io_bind_def)
  then show "main env cfg watch_remnants tr = Some (Inr (), tr2 @ [Print (handler e)])"
    by (simp add: main_def)
  from ab sync_stocks_calls
  show "\<exists>new. tr2 = tr1 @ new \<and> (\<forall>x \<in> set new. campaign_of x = Some (DBS_ID cfg))"
    by blast
qed

theorem main_failure_ends_run_witness:
  "main env_fbs_timeout cfg_sample [watch_sku1, watch_sku2] []
     = Some (Inr (), [GetProductList [] ''fbs'' ''token''] @ [Print (handler ReadTimeout)])
   \<and> main env_dbs_down cfg_sample [watch_sku1, watch_sku2] []
     = Some (Inr (),
         [GetProductList [] ''fbs'' ''token'',
          UpdateStocks [mk_stock ''wh_fbs'' ''2023-10-10T12:34:56Z'' ''sku1'' 100,
                        mk_stock ''wh_fbs'' ''2023-10-10T12:34:56Z'' ''sku3'' 0] ''fbs'' ''token'',
          GetProductList [] ''dbs'' ''token''] @ [Print (handler ConnectionError)])"
proof -
  from main_failure_ends_run [of env_fbs_timeout cfg_sample "[watch_sku1, watch_sku2]" "[]"]
    sync_fbs_timeout
  have 1: "main env_fbs_timeout cfg_sample [watch_sku1, watch_sku2] []
     = Some (Inr (), [GetProductList [] ''fbs'' ''token''] @ [Print (handler ReadTimeout)])"
    by blast
  from main_failure_ends_run [of env_dbs_down cfg_sample "[watch_sku1, watch_sku2]" "[]"]
    sync_fbs_dbs_down sync_dbs_dbs_down
  have 2: "main env_dbs_down cfg_sample [watch_sku1, watch_sku2] []
     = Some (Inr (),
         [GetProductList [] ''fbs'' ''token'',
          UpdateStocks [mk_stock ''wh_fbs'' ''2023-10-10T12:34:56Z'' ''sku1'' 100,
                        mk_stock ''wh_fbs'' ''2023-10-10T12:34:56Z'' ''sku3'' 0] ''fbs'' ''token'',
          GetProductList [] ''dbs'' ''token''] @ [Print (handler ConnectionError)])"
    by blast
  from 1 2 show ?thesis by blast
qed

text \<open>
  Claim C4 as stated fails: when the listing of FBS times out, the run ends with the
  report and no request for DBS is made, although synchronising DBS on its own succeeds
  on the same marketplace.
\<close>

theorem main_fbs_timeout_skips_dbs:
  "main env_fbs_timeout cfg_sample [watch_sku1, watch_sku2] []
     = Some (Inr (), [GetProductList [] ''fbs'' ''token'', Print ReportTimeout])
   \<and> filter (\<lambda>x. campaign_of x = Some ''dbs'')
        [GetProductList [] ''fbs'' ''token'', Print ReportTimeout] = []
   \<and> sync_stocks env_fbs_timeout [watch_sku1, watch_sku2] ''dbs'' ''wh_dbs'' ''token'' []
     = Some (Inr (),
         [GetProductList [] ''dbs'' ''token'',
          UpdateStocks [mk_stock ''wh_dbs'' ''2023-10-10T12:34:56Z'' ''sku1'' 100,
                        mk_stock ''wh_dbs'' ''2023-10-10T12:34:56Z'' ''sku3'' 0] ''dbs'' ''token''])"
  by (simp add: run_defs eval_defs)

text \<open>
  Claim C9. Under the Batcher contract for \<open>divide\<close>: when the body of \<open>upload_prices\<close>
  returns the price list, the run has fetched the offer ids, the list is the one
  \<open>create_prices\<close> gives for them, and the requests made after the listing are one
  \<open>update_price\<close> per chunk of \<open>divide(prices, 500)\<close>, in order; the chunks put
  together are the list, and each has between 1 and 500 entries. The same holds for the
  body of \<open>upload_stocks\<close> with \<open>update_stocks\<close> and 2000, and for the two stock
  loops of \<open>main\<close> when its \<open>try\<close> block ends without an exception. (A request that
  raises ends its loop: the batches sent are then the first chunks only. Both bodies
  return, with a value or an exception, whenever the listing of the offer ids does.)
\<close>

theorem uploads_in_batches:
  assumes "batcher_contract (divide_prices env)" and "batcher_contract (divide_stocks env)"
  shows
    "(\<forall>prices tr'.
        await (upload_prices env watch_remnants campaign_id market_token) tr = Some (Inr prices, tr') \<longrightarrow>
        (\<exists>offer_ids pages.
           get_offer_ids env campaign_id market_token tr
             = Some (Inr offer_ids, tr @ map (\<lambda>p. GetProductList p campaign_id market_token) pages)
         \<and> create_prices (seller_price_conversion env) watch_remnants offer_ids = Inr prices
         \<and> tr' = tr @ map (\<lambda>p. GetProductList p campaign_id market_token) pages
                    @ map (\<lambda>b. UpdatePrice b campaign_id market_token) (divide_prices env prices 500))
        \<and> concat (divide_prices env prices 500) = prices
        \<and> (\<forall>b \<in> set (divide_prices env prices 500). 1 \<le> length b \<and> length b \<le> 500))
   \<and> (\<forall>not_empty stocks tr'.
        await (upload_stocks env watch_remnants campaign_id market_token warehouse_id) tr
          = Some (Inr (not_empty, stocks), tr') \<longrightarrow>
        (\<exists>offer_ids pages rest.
           get_offer_ids env campaign_id market_token tr
             = Some (Inr offer_ids, tr @ map (\<lambda>p. GetProductList p campaign_id market_token) pages)
         \<and> create_stocks (utcnow env (tr @ map (\<lambda>p. GetProductList p campaign_id market_token) pages))
              watch_remnants offer_ids warehouse_id = Inr (stocks, rest)
         \<and> tr' = tr @ map (\<lambda>p. GetProductList p campaign_id market_token) pages
                    @ map (\<lambda>b. UpdateStocks b campaign_id market_token) (divide_stocks env stocks 2000))
        \<and> concat (divide_stocks env stocks 2000) = stocks
        \<and> (\<forall>b \<in> set (divide_stocks env stocks 2000). 1 \<le> length b \<and> length b \<le> 2000))
   \<and> (\<forall>u tr'.
        main_try env cfg watch_remnants [] = Some (Inr u, tr') \<longrightarrow>
        (\<exists>fbs_ids fbs_pages fbs_stocks fbs_rest dbs_ids dbs_pages dbs_stocks dbs_rest tr1 tr2 tr3.
           tr1 = map (\<lambda>p. GetProductList p (FBS_ID cfg) (MARKET_TOKEN cfg)) fbs_pages
         \<and> get_offer_ids env (FBS_ID cfg) (MARKET_TOKEN cfg) [] = Some (Inr fbs_ids, tr1)
         \<and> create_stocks (utcnow env tr1) watch_remnants fbs_ids (WAREHOUSE_FBS_ID cfg)
              = Inr (fbs_stocks, fbs_rest)
         \<and> tr2 = tr1 @ map (\<lambda>b. UpdateStocks b (FBS_ID cfg) (MARKET_TOKEN cfg))
                          (divide_stocks env fbs_stocks 2000)
         \<and> tr3 = tr2 @ map (\<lambda>p. GetProductList p (DBS_ID cfg) (MARKET_TOKEN cfg)) dbs_pages
         \<and> get_offer_ids env (DBS_ID cfg) (MARKET_TOKEN cfg) tr2 = Some (Inr dbs_ids, tr3)
         \<and> create_stocks (utcnow env tr3) watch_remnants dbs_ids (WAREHOUSE_DBS_ID cfg)
              = Inr (dbs_stocks, dbs_rest)
         \<and> tr' = tr3 @ map (\<lambda>b. UpdateStocks b (DBS_ID cfg) (MARKET_TOKEN cfg))
                          (divide_stocks env dbs_stocks 2000)
         \<and> stock_batches tr' = divide_stocks env fbs_stocks 2000 @ divide_stocks env dbs_stocks 2000
         \<and> concat (stock_batches tr') = fbs_stocks @ dbs_stocks
         \<and> (\<forall>b \<in> set (stock_batches tr'). 1 \<le> length b \<and> length b \<le> 2000)))"
proof (intro conjI allI impI)
  fix prices tr'
  assume a: "await (upload_prices env watch_remnants campaign_id market_token) tr = Some (Inr prices, tr')"
  from upload_prices_InrD [OF a] obtain ids tr1 where
    g: "get_offer_ids env campaign_id market_token tr = Some (Inr ids, tr1)"
    and p: "create_prices (seller_price_conversion env) watch_remnants ids = Inr prices"
    and t: "tr' = tr1 @ map (\<lambda>b. UpdatePrice b campaign_id market_token) (divide_prices env prices 500)"
    by blast
  from get_offer_ids_trace [OF g] obtain pages where
    "tr1 = tr @ map (\<lambda>p. GetProductList p campaign_id market_token) pages" by blast
  with g p t show "\<exists>offer_ids pages.
           get_offer_ids env campaign_id market_token tr
             = Some (Inr offer_ids, tr @ map (\<lambda>p. GetProductList p campaign_id market_token) pages)
         \<and> create_prices (seller_price_conversion env) watch_remnants offer_ids = Inr prices
         \<and> tr' = tr @ map (\<lambda>p. GetProductList p campaign_id market_token) pages
                    @ map (\<lambda>b. UpdatePrice b campaign_id market_token) (divide_prices env prices 500)"
    by auto
  show "concat (divide_prices env prices 500) = prices"
    using contract_bounds(1) [OF assms(1)] by simp
  show "\<forall>b \<in> set (divide_prices env prices 500). 1 \<le> length b \<and> length b \<le> 500"
    using contract_bounds(2) [OF assms(1), of 500] by simp
next
  fix not_empty stocks tr'
  assume a: "await (upload_stocks env watch_remnants campaign_id market_token warehouse_id) tr
          = Some (Inr (not_empty, stocks), tr')"
  from upload_stocks_InrD [OF a] obtain ids tr1 rest where
    g: "get_offer_ids env campaign_id market_token tr = Some (Inr ids, tr1)"
    and p: "create_stocks (utcnow env tr1) watch_remnants ids warehouse_id = Inr (stocks, rest)"
    and t: "tr' = tr1 @ map (\<lambda>b. UpdateStocks b campaign_id market_token) (divide_stocks env stocks 2000)"
    by blast
  from get_offer_ids_trace [OF g] obtain pages where
    "tr1 = tr @ map (\<lambda>p. GetProductList p campaign_id market_token) pages" by blast
  with g p t show "\<exists>offer_ids pages rest.
           get_offer_ids env campaign_id market_token tr
             = Some (Inr offer_ids, tr @ map (\<lambda>p. GetProductList p campaign_id market_token) pages)
         \<and> create_stocks (utcnow env (tr @ map (\<lambda>p. GetProductList p campaign_id market_token) pages))
              watch_remnants offer_ids warehouse_id = Inr (stocks, rest)
         \<and> tr' = tr @ map (\<lambda>p. GetProductList p campaign_id market_token) pages
                    @ map (\<lambda>b. UpdateStocks b campaign_id market_token) (divide_stocks env stocks 2000)"
    by auto
  show "concat (divide_stocks env stocks 2000) = stocks"
    using contract_bounds(1) [OF assms(2)] by simp
  show "\<forall>b \<in> set (divide_stocks env stocks 2000). 1 \<le> length b \<and> length b \<le> 2000"
    using contract_bounds(2) [OF assms(2), of 2000] by simp
next
  fix u tr'
  assume a: "main_try env cfg watch_remnants [] = Some (Inr u, tr')"
  let ?F = "FBS_ID cfg" and ?D = "DBS_ID cfg" and ?T = "MARKET_TOKEN cfg"
  from a obtain x tr2 where
    f: "sync_stocks env watch_remnants ?F (WAREHOUSE_FBS_ID cfg) ?T [] = Some (Inr x, tr2)"
    and d: "sync_stocks env watch_remnants ?D (WAREHOUSE_DBS_ID cfg) ?T tr2 = Some (Inr u, tr')"
    by (auto simp: main_try_phases io_bind_Inr_iff)
  from sync_stocks_InrD [OF f] obtain fbs_ids tr1 fbs_stocks fbs_rest where
    f1: "get_offer_ids env ?F ?T [] = Some (Inr fbs_ids, tr1)"
    and f2: "create_stocks (utcnow env tr1) watch_remnants fbs_ids (WAREHOUSE_FBS_ID cfg)
              = Inr (fbs_stocks, fbs_rest)"
    and f3: "tr2 = tr1 @ map (\<lambda>b. UpdateStocks b ?F ?T) (divide_stocks env fbs_stocks 2000)"
    by blast
  from get_offer_ids_trace [OF f1] obtain fbs_pages where
    f4: "tr1 = map (\<lambda>p. GetProductList p ?F ?T) fbs_pages" by auto
  from sync_stocks_InrD [OF d] obtain dbs_ids tr3 dbs_stocks dbs_rest where
    d1: "get_offer_ids env ?D ?T tr2 = Some (Inr dbs_ids, tr3)"
    and d2: "create_stocks (utcnow env tr3) watch_remnants dbs_ids (WAREHOUSE_DBS_ID cfg)
              = Inr (dbs_stocks, dbs_rest)"
    and d3: "tr' = tr3 @ map (\<lambda>b. UpdateStocks b ?D ?T) (divide_stocks env dbs_stocks 2000)"
    by blast
  from get_offer_ids_trace [OF d1] obtain dbs_pages where
    d4: "tr3 = tr2 @ map (\<lambda>p. GetProductList p ?D ?T) dbs_pages" by auto
  have sb: "stock_batches tr' = divide_stocks env fbs_stocks 2000 @ divide_stocks env dbs_stocks 2000"
    using f3 f4 d3 d4
    by (simp add: stock_batches_append stock_batches_pages stock_batches_updates)
  have cc: "concat (stock_batches tr') = fbs_stocks @ dbs_stocks"
    using sb contract_bounds(1) [OF assms(2)] by simp
  have bd: "\<forall>b \<in> set (stock_batches tr'). 1 \<le> length b \<and> length b \<le> 2000"
    using sb contract_bounds(2) [OF assms(2), of 2000] by auto
  from f1 f2 f3 f4 d1 d2 d3 d4 sb cc bd
  show "\<exists>fbs_ids fbs_pages fbs_stocks fbs_rest dbs_ids dbs_pages dbs_stocks dbs_rest tr1 tr2 tr3.
           tr1 = map (\<lambda>p. GetProductList p (FBS_ID cfg) (MARKET_TOKEN cfg)) fbs_pages
         \<and> get_offer_ids env (FBS_ID cfg) (MARKET_TOKEN cfg) [] = Some (Inr fbs_ids, tr1)
         \<and> create_stocks (utcnow env tr1) watch_remnants fbs_ids (WAREHOUSE_FBS_ID cfg)
              = Inr (fbs_stocks, fbs_rest)
         \<and> tr2 = tr1 @ map (\<lambda>b. UpdateStocks b (FBS_ID cfg) (MARKET_TOKEN cfg))
                          (divide_stocks env fbs_stocks 2000)
         \<and> tr3 = tr2 @ map (\<lambda>p. GetProductList p (DBS_ID cfg) (MARKET_TOKEN cfg)) dbs_pages
         \<and> get_offer_ids env (DBS_ID cfg) (MARKET_TOKEN cfg) tr2 = Some (Inr dbs_ids, tr3)
         \<and> create_stocks (utcnow env tr3) watch_remnants dbs_ids (WAREHOUSE_DBS_ID cfg)
              = Inr (dbs_stocks, dbs_rest)
         \<and> tr' = tr3 @ map (\<lambda>b. UpdateStocks b (DBS_ID cfg) (MARKET_TOKEN cfg))
                          (divide_stocks env dbs_stocks 2000)
         \<and> stock_batches tr' = divide_stocks env fbs_stocks 2000 @ divide_stocks env dbs_stocks 2000
         \<and> concat (stock_batches tr') = fbs_stocks @ dbs_stocks
         \<and> (\<forall>b \<in> set (stock_batches tr'). 1 \<le> length b \<and> length b \<le> 2000)"
    by blast
qed

theorem uploads_in_batches_witness:
  "await (upload_prices env_ok [watch_sku1, watch_sku2] ''fbs'' ''token'') []
     = Some (Inr [mk_price ''sku1'' 1500],
         [GetProductList [] ''fbs'' ''token'',
          UpdatePrice [mk_price ''sku1'' 1500] ''fbs'' ''token''])
   \<and> concat (divide_prices env_ok [mk_price ''sku1'' 1500] 500) = [mk_price ''sku1'' 1500]
   \<and> await (upload_stocks env_ok [watch_sku1, watch_sku2] ''fbs'' ''token'' ''wh_fbs'') []
     = Some (Inr ([mk_stock ''wh_fbs'' ''2023-10-10T12:34:56Z'' ''sku1'' 100],
                  [mk_stock ''wh_fbs'' ''2023-10-10T12:34:56Z'' ''sku1'' 100,
                   mk_stock ''wh_fbs'' ''2023-10-10T12:34:56Z'' ''sku3'' 0]),
         [GetProductList [] ''fbs'' ''token'',
          UpdateStocks [mk_stock ''wh_fbs'' ''2023-10-10T12:34:56Z'' ''sku1'' 100,
                        mk_stock ''wh_fbs'' ''2023-10-10T12:34:56Z'' ''sku3'' 0] ''fbs'' ''token''])
   \<and> concat (divide_stocks env_ok
        [mk_stock ''wh_fbs'' ''2023-10-10T12:34:56Z'' ''sku1'' 100,
         mk_stock ''wh_fbs'' ''2023-10-10T12:34:56Z'' ''sku3'' 0] 2000)
     = [mk_stock ''wh_fbs'' ''2023-10-10T12:34:56Z'' ''sku1'' 100,
        mk_stock ''wh_fbs'' ''2023-10-10T12:34:56Z'' ''sku3'' 0]
   \<and> main_try env_ok cfg_sample [watch_sku1, watch_sku2] []
     = Some (Inr (),
         [GetProductList [] ''fbs'' ''token'',
          UpdateStocks [mk_stock ''wh_fbs'' ''2023-10-10T12:34:56Z'' ''sku1'' 100,
                        mk_stock ''wh_fbs'' ''2023-10-10T12:34:56Z'' ''sku3'' 0] ''fbs'' ''token'',
          GetProductList [] ''dbs'' ''token'',
          UpdateStocks [mk_stock ''wh_dbs'' ''2023-10-10T12:34:56Z'' ''sku1'' 100,
                        mk_stock ''wh_dbs'' ''2023-10-10T12:34:56Z'' ''sku3'' 0] ''dbs'' ''token''])
   \<and> (\<exists>fbs_stocks dbs_stocks.
         concat (stock_batches
           [GetProductList [] ''fbs'' ''token'',
            UpdateStocks [mk_stock ''wh_fbs'' ''2023-10-10T12:34:56Z'' ''sku1'' 100,
                          mk_stock ''wh_fbs'' ''2023-10-10T12:34:56Z'' ''sku3'' 0] ''fbs'' ''token'',
            GetProductList [] ''dbs'' ''token'',
            UpdateStocks [mk_stock ''wh_dbs'' ''2023-10-10T12:34:56Z'' ''sku1'' 100,
                          mk_stock ''wh_dbs'' ''2023-10-10T12:34:56Z'' ''sku3'' 0] ''dbs'' ''token''])
         = fbs_stocks @ dbs_stocks)"
proof -
  have c1: "batcher_contract (divide_prices env_ok)"
    and c2: "batcher_contract (divide_stocks env_ok)"
    by (simp_all add: env_ok_def divide_contract)
  note t = uploads_in_batches [OF c1 c2, of "[watch_sku1, watch_sku2]" "''fbs''" "''token''" "[]"
      "''wh_fbs''" cfg_sample]
  from t upload_prices_env_ok
  have p: "concat (divide_prices env_ok [mk_price ''sku1'' 1500] 500) = [mk_price ''sku1'' 1500]"
    by blast
  from t upload_stocks_env_ok
  have s: "concat (divide_stocks env_ok
        [mk_stock ''wh_fbs'' ''2023-10-10T12:34:56Z'' ''sku1'' 100,
         mk_stock ''wh_fbs'' ''2023-10-10T12:34:56Z'' ''sku3'' 0] 2000)
     = [mk_stock ''wh_fbs'' ''2023-10-10T12:34:56Z'' ''sku1'' 100,
        mk_stock ''wh_fbs'' ''2023-10-10T12:34:56Z'' ''sku3'' 0]"
    by blast
  from t main_try_env_ok
  have m: "\<exists>fbs_stocks dbs_stocks.
         concat (stock_batches
           [GetProductList [] ''fbs'' ''token'',
            UpdateStocks [mk_stock ''wh_fbs'' ''2023-10-10T12:34:56Z'' ''sku1'' 100,
                          mk_stock ''wh_fbs'' ''2023-10-10T12:34:56Z'' ''sku3'' 0] ''fbs'' ''token'',
            GetProductList [] ''dbs'' ''token'',
            UpdateStocks [mk_stock ''wh_dbs'' ''2023-10-10T12:34:56Z'' ''sku1'' 100,
                          mk_stock ''wh_dbs'' ''2023-10-10T12:34:56Z'' ''sku3'' 0] ''dbs'' ''token''])
         = fbs_stocks @ dbs_stocks"
    by blast
  from p s m upload_prices_env_ok upload_stocks_env_ok main_try_env_ok show ?thesis
    by (intro conjI)
qed

end
